theory Spec2Isabelle
  imports Main "HOL-Library.Sublist" "HOL-Library.Multiset"
begin

section \<open>Strings and the library functions the checker calls\<close>

text \<open>
  A Go or PHP string is modelled as a \<^typ>\<open>string\<close>, a list of 8-bit characters.
  Every marker, pattern and separator of the three programs is ASCII, and the
  functions below are the ASCII behaviour of the library functions of the same
  name; multi-byte runes are carried through unchanged, one byte at a time.
\<close>

definition upper_letters :: string where
  "upper_letters = ''ABCDEFGHIJKLMNOPQRSTUVWXYZ''"

definition lower_letters :: string where
  "lower_letters = ''abcdefghijklmnopqrstuvwxyz''"

definition lower_char :: "char \<Rightarrow> char" where
  "lower_char c = (case map_of (zip upper_letters lower_letters) c of
                     None \<Rightarrow> c | Some l \<Rightarrow> l)"

text \<open>\<^verbatim>\<open>strings.ToLower\<close>.\<close>

definition ToLower :: "string \<Rightarrow> string" where
  "ToLower s = map lower_char s"

text \<open>\<^verbatim>\<open>strings.Contains(s, substr)\<close>: \<open>substr\<close> occurs in \<open>s\<close> as a contiguous block.\<close>

fun Contains :: "string \<Rightarrow> string \<Rightarrow> bool" where
  "Contains [] sub = (sub = [])"
| "Contains (c # cs) sub = (prefix sub (c # cs) \<or> Contains cs sub)"

text \<open>\<^verbatim>\<open>strings.Join(elems, sep)\<close>.\<close>

fun Join :: "string list \<Rightarrow> string \<Rightarrow> string" where
  "Join [] sep = []"
| "Join [x] sep = x"
| "Join (x # y # ys) sep = x @ sep @ Join (y # ys) sep"



section \<open>Regular expressions\<close>

text \<open>
  The patterns of the programs use literals, character classes with a greedy
  repetition count, one optional group and capture groups. \<open>rx_go\<close> is a
  backtracking matcher in continuation style: it tries the alternatives in the
  order of preference of the \<^verbatim>\<open>regexp\<close> package (a greedy repetition takes as
  many characters as it can and gives them back one at a time) and stops at the
  first alternative that the continuation accepts, which is the leftmost-first
  match. The pattern anchors \<^verbatim>\<open>^\<close> and \<^verbatim>\<open>$\<close> only occur around a whole pattern
  and are the function \<open>MatchWhole\<close>.
\<close>

datatype cls = OneOf "char list" | NoneOf "char list"

fun in_cls :: "cls \<Rightarrow> char \<Rightarrow> bool" where
  "in_cls (OneOf cs) c = (c \<in> set cs)"
| "in_cls (NoneOf cs) c = (c \<notin> set cs)"

datatype rx =
    Lit string
  | Rep cls nat "nat option"
  | Cat rx rx
  | Opt rx
  | Grp rx

fun strip_prefix :: "string \<Rightarrow> string \<Rightarrow> string option" where
  "strip_prefix [] s = Some s"
| "strip_prefix (p # ps) [] = None"
| "strip_prefix (p # ps) (c # cs) = (if p = c then strip_prefix ps cs else None)"

fun below :: "nat \<Rightarrow> nat option \<Rightarrow> bool" where
  "below n None = True"
| "below n (Some h) = (n < h)"

fun rep_go :: "cls \<Rightarrow> nat \<Rightarrow> nat option \<Rightarrow> nat \<Rightarrow> string \<Rightarrow> (string \<Rightarrow> 'a option) \<Rightarrow> 'a option" where
  "rep_go c lo hi n [] k = (if lo \<le> n then k [] else None)"
| "rep_go c lo hi n (x # xs) k =
     (if in_cls c x \<and> below n hi
      then (case rep_go c lo hi (Suc n) xs k of
              Some r \<Rightarrow> Some r
            | None \<Rightarrow> if lo \<le> n then k (x # xs) else None)
      else if lo \<le> n then k (x # xs) else None)"

fun rx_go :: "rx \<Rightarrow> string \<Rightarrow> string list \<Rightarrow> (string \<Rightarrow> string list \<Rightarrow> 'a option) \<Rightarrow> 'a option" where
  "rx_go (Lit p) s caps k =
     (case strip_prefix p s of None \<Rightarrow> None | Some rest \<Rightarrow> k rest caps)"
| "rx_go (Rep c lo hi) s caps k = rep_go c lo hi 0 s (\<lambda>rest. k rest caps)"
| "rx_go (Cat a b) s caps k = rx_go a s caps (\<lambda>rest caps'. rx_go b rest caps' k)"
| "rx_go (Opt a) s caps k =
     (case rx_go a s caps k of Some r \<Rightarrow> Some r | None \<Rightarrow> k s caps)"
| "rx_go (Grp a) s caps k =
     rx_go a s caps (\<lambda>rest caps'. k rest (caps' @ [take (length s - length rest) s]))"

definition rx_seq :: "rx list \<Rightarrow> rx" where
  "rx_seq rs = foldr Cat rs (Lit [])"

text \<open>The match of \<open>r\<close> that starts at the first character of \<open>s\<close>: the matched
  text and the captured groups.\<close>

definition rx_at :: "rx \<Rightarrow> string \<Rightarrow> (string \<times> string list) option" where
  "rx_at r s = rx_go r s [] (\<lambda>rest caps. Some (take (length s - length rest) s, caps))"

text \<open>\<^verbatim>\<open>MatchString\<close> of the pattern \<^verbatim>\<open>^r$\<close>: in Go \<^verbatim>\<open>$\<close> is the end of the text.\<close>

definition MatchWhole :: "rx \<Rightarrow> string \<Rightarrow> bool" where
  "MatchWhole r s =
     (rx_go r s [] (\<lambda>rest caps. if rest = [] then Some () else None) \<noteq> None)"

text \<open>\<^verbatim>\<open>FindStringSubmatch\<close>: the leftmost match and its groups, the empty (nil)
  slice when there is none.\<close>

fun FindStringSubmatch :: "rx \<Rightarrow> string \<Rightarrow> string list" where
  "FindStringSubmatch r [] =
     (case rx_at r [] of None \<Rightarrow> [] | Some (m, caps) \<Rightarrow> m # caps)"
| "FindStringSubmatch r (c # cs) =
     (case rx_at r (c # cs) of
        None \<Rightarrow> FindStringSubmatch r cs
      | Some (m, caps) \<Rightarrow> m # caps)"

text \<open>
  \<^verbatim>\<open>FindAllStringSubmatch(s, -1)\<close>: the successive non-overlapping matches from
  left to right. \<open>skip\<close> counts the characters of the previous match that are
  still to be passed over.
\<close>

fun find_all :: "rx \<Rightarrow> nat \<Rightarrow> string \<Rightarrow> string list list" where
  "find_all r skip [] =
     (if skip = 0 then (case rx_at r [] of None \<Rightarrow> [] | Some (m, caps) \<Rightarrow> [m # caps])
      else [])"
| "find_all r skip (c # cs) =
     (if 0 < skip then find_all r (skip - 1) cs
      else (case rx_at r (c # cs) of
              None \<Rightarrow> find_all r 0 cs
            | Some (m, caps) \<Rightarrow> (m # caps) # find_all r (length m - 1) cs))"

definition FindAllStringSubmatch :: "rx \<Rightarrow> string \<Rightarrow> string list list" where
  "FindAllStringSubmatch r s = find_all r 0 s"


definition digit :: cls where
  "digit = OneOf ''0123456789''"

definition digits_dot :: cls where
  "digits_dot = OneOf ''0123456789.''"

definition space :: cls where
  "space = OneOf [CHR 0x09, CHR 0x0A, CHR 0x0C, CHR 0x0D, CHR 0x20]"

definition quote :: cls where
  "quote = OneOf [CHR 0x22, CHR 0x27]"


definition one :: "cls \<Rightarrow> rx" where
  "one c = Rep c 1 (Some 1)"

definition plus :: "cls \<Rightarrow> rx" where
  "plus c = Rep c 1 None"

definition star :: "cls \<Rightarrow> rx" where
  "star c = Rep c 0 None"

text \<open>\<^verbatim>\<open>strings.Split(s, sep)\<close> for a one-character separator, and the decimal
  numeral that \<^verbatim>\<open>%d\<close> prints.\<close>

fun split_on :: "char \<Rightarrow> string \<Rightarrow> string list" where
  "split_on d [] = [[]]"
| "split_on d (c # cs) =
     (if c = d then [] # split_on d cs
      else (case split_on d cs of [] \<Rightarrow> [[c]] | p # ps \<Rightarrow> (c # p) # ps))"




section \<open>The HTTP client\<close>

text \<open>
  The network is a parameter: one round trip answers a request with a transport
  error (its text) or with a response. A response carries its status, its
  header fields in canonical spelling, its body and, when reading the body
  fails, the text of that error. A \<open>Location\<close> field is taken to hold the
  absolute address it resolves to.
\<close>

datatype redirect_policy = DefaultPolicy | UseLastResponse

record http_client =
  Timeout :: int
  InsecureSkipVerify :: bool
  ProxyURL :: "string option"
  CheckRedirect :: redirect_policy

record http_response =
  StatusCode :: int
  Header :: "(string \<times> string list) list"
  Body :: string
  ReadError :: "string option"

type_synonym network = "http_client \<Rightarrow> (string \<times> string) list \<Rightarrow> string \<Rightarrow> string + http_response"

text \<open>\<^verbatim>\<open>Header.Get\<close>: the first value of a field, the empty string when absent.\<close>

definition header_get :: "(string \<times> string list) list \<Rightarrow> string \<Rightarrow> string" where
  "header_get h name =
     (case map_of h name of None \<Rightarrow> [] | Some [] \<Rightarrow> [] | Some (v # vs) \<Rightarrow> v)"

definition shouldRedirect :: "int \<Rightarrow> bool" where
  "shouldRedirect code = (code \<in> set [301, 302, 303, 307, 308])"

text \<open>
  \<^verbatim>\<open>Client.Do\<close> for a GET. After each response with a redirect status and a
  non-empty \<open>Location\<close> the client asks its \<^verbatim>\<open>CheckRedirect\<close>: the default
  policy follows the redirect until ten requests have been made, and a policy
  that returns \<^verbatim>\<open>ErrUseLastResponse\<close> hands the response back as it is. The
  result is the address of the last request and its response.
\<close>

fun client_do :: "network \<Rightarrow> http_client \<Rightarrow> (string \<times> string) list \<Rightarrow> nat \<Rightarrow> string
                    \<Rightarrow> string + (string \<times> http_response)" where
  "client_do net c hdrs 0 url = Inl ''stopped after 10 redirects''"
| "client_do net c hdrs (Suc left) url =
     (case net c hdrs url of
        Inl e \<Rightarrow> Inl e
      | Inr resp \<Rightarrow>
          if \<not> shouldRedirect (StatusCode resp) then Inr (url, resp)
          else if header_get (Header resp) ''Location'' = [] then Inr (url, resp)
          else if CheckRedirect c = UseLastResponse then Inr (url, resp)
          else client_do net c hdrs left (header_get (Header resp) ''Location''))"

definition Do :: "network \<Rightarrow> http_client \<Rightarrow> (string \<times> string) list \<Rightarrow> string
                    \<Rightarrow> string + (string \<times> http_response)" where
  "Do net c hdrs url = client_do net c hdrs 10 url"


section \<open>The checker: \<^verbatim>\<open>main.go\<close>\<close>


text \<open>
  What the checker reads from outside: the name lookup, the network and the
  clock (the printed duration of the first and of the second request).
\<close>

record world =
  LookupHost :: "string \<Rightarrow> bool"
  net :: network
  elapsed :: "bool \<Rightarrow> string"

subsection \<open>Domain validation\<close>








subsection \<open>Fetching\<close>


subsection \<open>Body checks\<close>





text \<open>\<^verbatim>\<open>^[4-9]\.\d{1,2}(\.\d{1,2})?$\<close>\<close>

definition validVersionRegex :: rx where
  "validVersionRegex =
     rx_seq [one (OneOf ''456789''), Lit ''.'', Rep digit 1 (Some 2),
             Opt (Grp (rx_seq [Lit ''.'', Rep digit 1 (Some 2)]))]"

definition isValidVersion :: "string \<Rightarrow> bool" where
  "isValidVersion version = MatchWhole validVersionRegex version"

subsection \<open>Detection\<close>

text \<open>\<^verbatim>\<open><meta\s+name=["']generator["']\s+content=["']WordPress\s+([0-9.]+)["']\<close>\<close>

definition metaRegex :: rx where
  "metaRegex =
     rx_seq [Lit ''<meta'', plus space, Lit ''name='', one quote, Lit ''generator'', one quote,
             plus space, Lit ''content='', one quote, Lit ''WordPress'', plus space,
             Grp (plus digits_dot), one quote]"

text \<open>\<^verbatim>\<open>/wp-includes/js/wp-embed\.min\.js\?ver=([0-9.]+)\<close>\<close>

definition embedRegex :: rx where
  "embedRegex = rx_seq [Lit ''/wp-includes/js/wp-embed.min.js?ver='', Grp (plus digits_dot)]"

text \<open>\<^verbatim>\<open>wp-emoji-release\.min\.js\?ver=([0-9.]+)\<close>\<close>

definition emojiRegex :: rx where
  "emojiRegex = rx_seq [Lit ''wp-emoji-release.min.js?ver='', Grp (plus digits_dot)]"

text \<open>\<^verbatim>\<open>\?ver=([0-9.]+)\<close>\<close>

definition verRegex :: rx where
  "verRegex = rx_seq [Lit ''?ver='', Grp (plus digits_dot)]"

text \<open>\<^verbatim>\<open><meta\s+name=["']generator["']\s+content=["']Elementor\s+([0-9.]+)["']\<close>\<close>

definition elementorMetaRegex :: rx where
  "elementorMetaRegex =
     rx_seq [Lit ''<meta'', plus space, Lit ''name='', one quote, Lit ''generator'', one quote,
             plus space, Lit ''content='', one quote, Lit ''Elementor'', plus space,
             Grp (plus digits_dot), one quote]"

text \<open>The markers, looked up in the lower-cased body, in the order of the source.\<close>

definition find_evidences :: "string \<Rightarrow> string list" where
  "find_evidences bodyLower =
     (let evidences = [];
          evidences = (if Contains bodyLower ''wp-content''
                       then evidences @ [''wp-content''] else evidences);
          evidences = (if Contains bodyLower ''wp-includes''
                       then evidences @ [''wp-includes''] else evidences);
          evidences = (if Contains bodyLower ''wp-json''
                       then evidences @ [''wp-json''] else evidences);
          evidences = (if Contains bodyLower ''wp-emoji''
                       then evidences @ [''wp-emoji''] else evidences);
          evidences = (if Contains bodyLower ''elementor''
                       then evidences @ [''elementor''] else evidences)
      in evidences)"

definition detectWordPress :: "string \<Rightarrow> bool \<times> string \<times> string" where
  "detectWordPress body =
     (let bodyLower = ToLower body;
          evidences = find_evidences bodyLower
      in if length evidences = 0 then (False, [], [])
         else let metaMatches = FindStringSubmatch metaRegex body in
         if 1 < length metaMatches \<and> isValidVersion (metaMatches ! 1)
         then (True, metaMatches ! 1, ''meta generator: '' @ Join evidences '', '')
         else let embedMatches = FindStringSubmatch embedRegex body in
         if 1 < length embedMatches \<and> isValidVersion (embedMatches ! 1)
         then (True, embedMatches ! 1, ''wp-embed.min.js: '' @ Join evidences '', '')
         else let emojiMatches = FindStringSubmatch emojiRegex body in
         if 1 < length emojiMatches \<and> isValidVersion (emojiMatches ! 1)
         then (True, emojiMatches ! 1, ''wp-emoji-release.min.js: '' @ Join evidences '', '')
         else let verMatches = FindStringSubmatch verRegex body in
         if 1 < length verMatches \<and> isValidVersion (verMatches ! 1)
         then (True, verMatches ! 1, ''asset version: '' @ Join evidences '', '')
         else let elementorMetaMatches = FindStringSubmatch elementorMetaRegex body in
         if 1 < length elementorMetaMatches \<and> isValidVersion (elementorMetaMatches ! 1)
         then (True, elementorMetaMatches ! 1,
               ''elementor meta generator: '' @ Join evidences '', '')
         else (True, ''Unknown'', Join evidences '', ''))"

subsection \<open>One domain\<close>




section \<open>The prototype with proxies: \<^verbatim>\<open>WIP-with-proxies/main.go\<close>\<close>

text \<open>
  The prototype is a program of its own with functions of the same names; the
  names that clash with the checker above carry a prime.
\<close>

record Proxy =
  Host :: string
  Port :: string
  Username :: string
  Password :: string
  Type :: string
  Active :: bool

record DomainResult =
  Domain' :: string
  StatusCode' :: int
  IsWordPress' :: bool
  WPVersion :: string
  WPTheme :: string
  WPPlugins :: "string list"
  Headers :: "(string \<times> string) list"
  Error :: string
  ProxyUsed :: string
  RedirectLocation :: string

record WordPressInfo =
  Version :: string
  Theme :: string
  Plugins :: "string list"

subsection \<open>Detection\<close>

definition wpIndicators :: "string list" where
  "wpIndicators = [''/wp-content/'', ''/wp-includes/'', ''wp-login.php'', ''wp-admin'']"

text \<open>An unescaped dot of a pattern stands for any character but the line feed.\<close>

definition any_char :: cls where
  "any_char = NoneOf [CHR 0x0A]"

text \<open>
  \<^verbatim>\<open><meta name="generator" content="WordPress ([0-9.]+)\<close>,
  \<^verbatim>\<open>ver=([0-9.]+)\<close> and
  \<^verbatim>\<open>wp-includes/js/wp-emoji-release.min.js\?ver=([0-9.]+)\<close>
\<close>

definition versionPatterns :: "rx list" where
  \<open>versionPatterns =
     [rx_seq [Lit ''<meta name="generator" content="WordPress '', Grp (plus digits_dot)],
      rx_seq [Lit ''ver='', Grp (plus digits_dot)],
      rx_seq [Lit ''wp-includes/js/wp-emoji-release'', one any_char, Lit ''min'', one any_char,
              Lit ''js?ver='', Grp (plus digits_dot)]]\<close>

text \<open>\<^verbatim>\<open>/wp-content/themes/([^/]+)\<close> and \<^verbatim>\<open>/wp-content/plugins/([^/]+)\<close>\<close>

definition themePattern :: rx where
  "themePattern = rx_seq [Lit ''/wp-content/themes/'', Grp (plus (NoneOf ''/''))]"

definition pluginPattern :: rx where
  "pluginPattern = rx_seq [Lit ''/wp-content/plugins/'', Grp (plus (NoneOf ''/''))]"

text \<open>The loop over the version patterns: the first pattern that matches gives
  the version and ends the loop.\<close>

fun first_version :: "rx list \<Rightarrow> string \<Rightarrow> string \<Rightarrow> string" where
  "first_version [] body version = version"
| "first_version (pattern # patterns) body version =
     (let matches = FindStringSubmatch pattern body
      in if 1 < length matches then matches ! 1
         else first_version patterns body version)"

text \<open>
  \<open>pluginsMap\<close> is a Go map used as a set. The model keeps its keys in the
  order in which they were first stored; the \<^verbatim>\<open>range\<close> over the map visits every
  key once in an order that the language leaves open, which is the parameter
  \<open>iter\<close>: it takes the keys and returns them in the order of the visit.
\<close>

fun map_keys :: "string list list \<Rightarrow> string list \<Rightarrow> string list" where
  "map_keys [] pluginsMap = pluginsMap"
| "map_keys (match # matches) pluginsMap =
     (if 1 < length match
      then map_keys matches (if match ! 1 \<in> set pluginsMap then pluginsMap
                             else pluginsMap @ [match ! 1])
      else map_keys matches pluginsMap)"

definition detectWordPress' :: "(string list \<Rightarrow> string list) \<Rightarrow> string \<Rightarrow> bool \<times> WordPressInfo" where
  "detectWordPress' iter body =
     (let info = \<lparr>Version = [], Theme = [], Plugins = []\<rparr>;
          isWP = list_ex (\<lambda>indicator. Contains body indicator) wpIndicators
      in if \<not> isWP then (False, info)
         else let info = info\<lparr>Version := first_version versionPatterns body (Version info)\<rparr>;
                  themeMatches = FindStringSubmatch themePattern body;
                  info = (if 1 < length themeMatches then info\<lparr>Theme := themeMatches ! 1\<rparr>
                          else info);
                  pluginMatches = FindAllStringSubmatch pluginPattern body;
                  pluginsMap = map_keys pluginMatches [];
                  info = info\<lparr>Plugins := Plugins info @ iter pluginsMap\<rparr>
              in (True, info))"

definition processResult :: "(string list \<Rightarrow> string list) \<Rightarrow> DomainResult \<Rightarrow> string \<Rightarrow> DomainResult" where
  "processResult iter result body =
     (let (isWP, wpInfo) = detectWordPress' iter body;
          result = result\<lparr>IsWordPress' := isWP\<rparr>
      in if isWP
         then result\<lparr>WPVersion := Version wpInfo, WPTheme := Theme wpInfo,
                     WPPlugins := Plugins wpInfo\<rparr>
         else result)"


subsection \<open>The proxy file\<close>

text \<open>
  \<^verbatim>\<open>proxies.csv\<close> is modelled by the records that \<^verbatim>\<open>encoding/csv\<close> reads from
  it, the header first, or \<open>None\<close> when the file cannot be opened; \<open>writable\<close>
  says whether \<^verbatim>\<open>os.Create\<close> succeeds. Both functions use a reader as
  \<^verbatim>\<open>csv.NewReader\<close> returns it, with \<^verbatim>\<open>FieldsPerRecord\<close> zero: the first record
  read sets the number of fields, and every later record with another number
  of fields is the error \<^verbatim>\<open>ErrFieldCount\<close>. The first argument of \<open>csv_records\<close>
  and of \<open>load_rows\<close> is that field of the reader.
\<close>

record files =
  proxies_csv :: "string list list option"
  writable :: bool

definition fields_error :: "nat \<Rightarrow> string list \<Rightarrow> bool" where
  "fields_error fieldsPerRecord record = (0 < fieldsPerRecord \<and> length record \<noteq> fieldsPerRecord)"

definition fields_next :: "nat \<Rightarrow> string list \<Rightarrow> nat" where
  "fields_next fieldsPerRecord record =
     (if 0 < fieldsPerRecord then fieldsPerRecord else length record)"

text \<open>\<^verbatim>\<open>Reader.ReadAll\<close>\<close>

fun csv_records :: "nat \<Rightarrow> string list list \<Rightarrow> string + string list list" where
  "csv_records fieldsPerRecord [] = Inr []"
| "csv_records fieldsPerRecord (record # rest) =
     (if fields_error fieldsPerRecord record then Inl ''wrong number of fields''
      else (case csv_records (fields_next fieldsPerRecord record) rest of
              Inl err \<Rightarrow> Inl err
            | Inr records \<Rightarrow> Inr (record # records)))"

definition ReadAll :: "string list list \<Rightarrow> string + string list list" where
  "ReadAll rows = csv_records 0 rows"

text \<open>\<^verbatim>\<open>strconv.ParseBool\<close>, its error dropped as in the source: \<open>false\<close> then.\<close>

definition ParseBool :: "string \<Rightarrow> bool" where
  "ParseBool str = (str \<in> set [''1'', ''t'', ''T'', ''TRUE'', ''true'', ''True''])"

definition proxy_of :: "string list \<Rightarrow> Proxy" where
  "proxy_of record =
     \<lparr>Host = record ! 0, Port = record ! 1, Username = record ! 2, Password = record ! 3,
      Type = record ! 4, Active = ParseBool (record ! 5)\<rparr>"

fun load_rows :: "nat \<Rightarrow> string list list \<Rightarrow> string + Proxy list" where
  "load_rows fieldsPerRecord [] = Inr []"
| "load_rows fieldsPerRecord (record # rest) =
     (if fields_error fieldsPerRecord record then Inl ''wrong number of fields''
      else if length record < 6 then load_rows (fields_next fieldsPerRecord record) rest
      else (case load_rows (fields_next fieldsPerRecord record) rest of
              Inl err \<Rightarrow> Inl err
            | Inr proxies \<Rightarrow> Inr (proxy_of record # proxies)))"

definition loadProxies :: "files \<Rightarrow> string + Proxy list" where
  "loadProxies fs =
     (case proxies_csv fs of
        None \<Rightarrow> Inl ''open proxies.csv: no such file or directory''
      | Some [] \<Rightarrow> Inl ''EOF''
      | Some (header # rows) \<Rightarrow> load_rows (length header) rows)"

text \<open>
  \<open>markProxyAsInactive\<close> returns \<open>Inl\<close> when the program panics on an index out
  of range, and otherwise the slice, the file and the error it returns.
\<close>

definition markProxyAsInactive :: "Proxy list \<Rightarrow> nat \<Rightarrow> files
      \<Rightarrow> string + (Proxy list \<times> files \<times> string option)" where
  "markProxyAsInactive proxies index fs =
     (if length proxies \<le> index then Inl ''index out of range''
      else let proxies = proxies[index := (proxies ! index)\<lparr>Active := False\<rparr>] in
        case proxies_csv fs of
          None \<Rightarrow> Inr (proxies, fs, Some ''open proxies.csv: no such file or directory'')
        | Some rows \<Rightarrow>
           (case ReadAll rows of
              Inl err \<Rightarrow> Inr (proxies, fs, Some err)
            | Inr records \<Rightarrow>
                if index + 1 < length records \<and> length (records ! (index + 1)) \<le> 5
                then Inl ''index out of range''
                else let records =
                       (if index + 1 < length records
                        then records[index + 1 := (records ! (index + 1))[5 := ''false'']]
                        else records)
                     in if \<not> writable fs
                        then Inr (proxies, fs, Some ''open proxies.csv: permission denied'')
                        else Inr (proxies, fs\<lparr>proxies_csv := Some records\<rparr>, None)))"

subsection \<open>Fetching\<close>

text \<open>
  What the prototype reads from outside: the network, whether \<^verbatim>\<open>url.Parse\<close>
  rejects an address (and with which error), and the order of a \<^verbatim>\<open>range\<close> over
  a map.
\<close>

record world' =
  net' :: network
  url_Parse :: "string \<Rightarrow> string option"
  range_order :: "string list \<Rightarrow> string list"

definition userAgent :: string where
  "userAgent = ''Mozilla/5.0 (Windows NT 10.0; Win64; x64) AppleWebKit/537.36 (KHTML, like Gecko) Chrome/91.0.4472.124 Safari/537.36''"

definition proxy_address :: "Proxy \<Rightarrow> string" where
  "proxy_address proxy =
     (if Username proxy \<noteq> [] \<and> Password proxy \<noteq> []
      then ToLower (Type proxy) @ ''://'' @ Username proxy @ '':'' @ Password proxy @ ''@''
           @ Host proxy @ '':'' @ Port proxy
      else ToLower (Type proxy) @ ''://'' @ Host proxy @ '':'' @ Port proxy)"

text \<open>The results of \<open>checkDomain\<close>: status, body, headers, error.\<close>

definition checkDomain' :: "world' \<Rightarrow> string \<Rightarrow> Proxy option
      \<Rightarrow> int \<times> string \<times> (string \<times> string) list \<times> string option" where
  "checkDomain' w domain proxy =
     (let client = \<lparr>Timeout = 10, InsecureSkipVerify = False, ProxyURL = None,
                     CheckRedirect = UseLastResponse\<rparr>;
          transport =
            (case proxy of
               None \<Rightarrow> Inr client
             | Some p \<Rightarrow>
                 (case url_Parse w (proxy_address p) of
                    Some err \<Rightarrow> Inl (''invalid proxy URL: '' @ err)
                  | None \<Rightarrow> Inr (client\<lparr>ProxyURL := Some (proxy_address p)\<rparr>)))
      in case transport of
           Inl err \<Rightarrow> (0, [], [], Some err)
         | Inr client \<Rightarrow>
            (case url_Parse w domain of
               Some err \<Rightarrow> (0, [], [], Some err)
             | None \<Rightarrow>
                (case Do (net' w) client [(''User-Agent'', userAgent)] domain of
                   Inl err \<Rightarrow> (0, [], [], Some err)
                 | Inr (url, resp) \<Rightarrow>
                    (let headers = map (\<lambda>(name, values). (name, hd values))
                                     (filter (\<lambda>(name, values). 0 < length values) (Header resp))
                     in case ReadError resp of
                          Some err \<Rightarrow> (StatusCode resp, [], headers, Some err)
                        | None \<Rightarrow> (StatusCode resp, Body resp, headers, None)))))"

subsection \<open>The program\<close>

definition record_redirect :: "DomainResult \<Rightarrow> (string \<times> string) list \<Rightarrow> int \<Rightarrow> DomainResult" where
  "record_redirect result headers statusCode =
     (case map_of headers ''Location'' of
        Some location \<Rightarrow>
          if statusCode = 301 \<or> statusCode = 302
          then result\<lparr>RedirectLocation := location\<rparr> else result
      | None \<Rightarrow> result)"

text \<open>
  The loop over the proxies, from index \<open>i\<close> on; the last argument holds the
  elements still to visit. It ends with \<open>Inl\<close> on a panic, with a result when a
  proxy answered, and with \<open>None\<close> when it ran to its end.
\<close>

fun proxy_loop :: "world' \<Rightarrow> string \<Rightarrow> DomainResult \<Rightarrow> Proxy list \<Rightarrow> files \<Rightarrow> nat \<Rightarrow> Proxy list
      \<Rightarrow> string + (DomainResult option \<times> files)" where
  "proxy_loop w domain result proxies fs i [] = Inr (None, fs)"
| "proxy_loop w domain result proxies fs i (proxy # rest) =
     (if \<not> Active proxy then proxy_loop w domain result proxies fs (Suc i) rest
      else (case checkDomain' w domain (Some proxy) of
              (statusCode, body, headers, Some err) \<Rightarrow>
                (case markProxyAsInactive proxies i fs of
                   Inl panic \<Rightarrow> Inl panic
                 | Inr (proxies, fs, _) \<Rightarrow> proxy_loop w domain result proxies fs (Suc i) rest)
            | (statusCode, body, headers, None) \<Rightarrow>
                (let result = result\<lparr>StatusCode' := statusCode, Headers := headers,
                                     ProxyUsed := Host proxy @ '':'' @ Port proxy\<rparr>;
                     result = record_redirect result headers statusCode;
                     result = processResult (range_order w) result body
                 in Inr (Some result, fs))))"

text \<open>
  \<open>main\<close> with the arguments of the command line (the program name first):
  the result it prints, if any, and the files it leaves.
\<close>

definition main' :: "world' \<Rightarrow> files \<Rightarrow> string list \<Rightarrow> string + (DomainResult option \<times> files)" where
  "main' w fs args =
     (if length args < 2 then Inr (None, fs)
      else let domain = args ! 1;
               domain = (if \<not> prefix ''http://'' domain \<and> \<not> prefix ''https://'' domain
                         then ''https://'' @ domain else domain);
               result = \<lparr>Domain' = domain, StatusCode' = 0, IsWordPress' = False, WPVersion = [],
                         WPTheme = [], WPPlugins = [], Headers = [], Error = [], ProxyUsed = [],
                         RedirectLocation = []\<rparr>
           in case checkDomain' w domain None of
                (statusCode, body, headers, Some err) \<Rightarrow> Inr (Some (result\<lparr>Error := err\<rparr>), fs)
              | (statusCode, body, headers, None) \<Rightarrow>
                 (let result = result\<lparr>StatusCode' := statusCode, Headers := headers\<rparr>;
                      result = record_redirect result headers statusCode
                  in if statusCode \<noteq> 403
                     then Inr (Some (processResult (range_order w) result body), fs)
                     else (case loadProxies fs of
                             Inl err \<Rightarrow>
                               Inr (Some (result\<lparr>Error := ''Failed to load proxies: '' @ err\<rparr>), fs)
                           | Inr proxies \<Rightarrow>
                              (case proxy_loop w domain result proxies fs 0 proxies of
                                 Inl panic \<Rightarrow> Inl panic
                               | Inr (Some result, fs) \<Rightarrow> Inr (Some result, fs)
                               | Inr (None, fs) \<Rightarrow>
                                   Inr (Some (result\<lparr>StatusCode' := 403,
                                          Error := ''All proxies failed or returned 403''\<rparr>), fs)))))"


section \<open>The PHP version: \<^verbatim>\<open>php-version/main.php\<close>\<close>

text \<open>
  The arrays with fixed string keys are records, the key prefixed with \<open>p_\<close>
  for a proxy, \<open>r_\<close> for the result and \<open>c_\<close> for an option of the cURL handle;
  \<open>null\<close> is \<open>None\<close>. The functions carry the prefix \<open>php_\<close>.
\<close>

record php_proxy =
  p_host :: string
  p_port :: string
  p_username :: string
  p_password :: string
  p_type :: string
  p_active :: bool

record php_result =
  r_domain :: string
  r_status_code :: "int option"
  r_is_wordpress :: bool
  r_wp_version :: "string option"
  r_wp_theme :: "string option"
  r_wp_plugins :: "string list"
  r_headers :: "(string \<times> string) list"
  r_error :: "string option"
  r_proxy_used :: "string option"
  r_redirect_location :: "string option"

datatype curl_proxytype = CURLPROXY_HTTP | CURLPROXY_SOCKS4 | CURLPROXY_SOCKS5

record curl =
  c_URL :: string
  c_FOLLOWLOCATION :: bool
  c_TIMEOUT :: int
  c_USERAGENT :: string
  c_PROXY :: "string option"
  c_PROXYPORT :: "string option"
  c_PROXYUSERPWD :: "string option"
  c_PROXYTYPE :: "curl_proxytype option"
  c_HTTPPROXYTUNNEL :: bool

text \<open>
  \<^verbatim>\<open>curl_exec\<close> is the parameter: for a handle it gives the error text, or the
  status code, the header text and the body of the response.
\<close>

type_synonym curl_exec = "curl \<Rightarrow> string + (int \<times> string \<times> string)"

text \<open>\<^verbatim>\<open>empty\<close> of a string: the empty string and \<^verbatim>\<open>"0"\<close>.\<close>

definition php_empty :: "string \<Rightarrow> bool" where
  "php_empty str = (str = [] \<or> str = ''0'')"

text \<open>\<^verbatim>\<open>explode("\r\n", text)\<close>\<close>

fun explode_crlf :: "string \<Rightarrow> string list" where
  "explode_crlf [] = [[]]"
| "explode_crlf [c] = [[c]]"
| "explode_crlf (c # d # cs) =
     (if c = CHR 0x0D \<and> d = CHR 0x0A then [] # explode_crlf cs
      else (case explode_crlf (d # cs) of [] \<Rightarrow> [[c]] | p # ps \<Rightarrow> (c # p) # ps))"

text \<open>
  \<^verbatim>\<open>/^([^:]+):\s*(.+)$/\<close> on one line. In PCRE \<^verbatim>\<open>\s\<close> also holds the vertical
  tab, the dot is any character but the line feed, and \<^verbatim>\<open>$\<close> is the end of the
  subject or the place before a line feed that ends it.
\<close>

definition pcre_space :: cls where
  "pcre_space = OneOf [CHR 0x09, CHR 0x0A, CHR 0x0B, CHR 0x0C, CHR 0x0D, CHR 0x20]"

definition headerRegex :: rx where
  "headerRegex = rx_seq [Grp (plus (NoneOf '':'')), Lit '':'', star pcre_space, Grp (plus any_char)]"

definition match_header :: "string \<Rightarrow> string list option" where
  "match_header line =
     rx_go headerRegex line []
       (\<lambda>rest caps. if rest = [] \<or> rest = [CHR 0x0A] then Some caps else None)"

fun array_set :: "string \<Rightarrow> string \<Rightarrow> (string \<times> string) list \<Rightarrow> (string \<times> string) list" where
  "array_set key v [] = [(key, v)]"
| "array_set key v ((key', v') # rest) =
     (if key = key' then (key, v) # rest else (key', v') # array_set key v rest)"

fun parse_headers :: "string list \<Rightarrow> (string \<times> string) list \<Rightarrow> (string \<times> string) list" where
  "parse_headers [] headers = headers"
| "parse_headers (line # lines) headers =
     (case match_header line of
        Some [name, v] \<Rightarrow> parse_headers lines (array_set (ToLower name) v headers)
      | _ \<Rightarrow> parse_headers lines headers)"

text \<open>\<open>fetchUrl\<close>: \<open>None\<close> as status stands for \<^verbatim>\<open>false\<close>, the body then holds
  the error.\<close>

definition php_fetchUrl :: "curl_exec \<Rightarrow> string \<Rightarrow> php_proxy option
      \<Rightarrow> int option \<times> string \<times> (string \<times> string) list" where
  "php_fetchUrl exec url proxy =
     (let ch = \<lparr>c_URL = url, c_FOLLOWLOCATION = False, c_TIMEOUT = 10, c_USERAGENT = userAgent,
                 c_PROXY = None, c_PROXYPORT = None, c_PROXYUSERPWD = None, c_PROXYTYPE = None,
                 c_HTTPPROXYTUNNEL = False\<rparr>;
          ch = (case proxy of
                  None \<Rightarrow> ch
                | Some proxy \<Rightarrow>
                   (let proxyAuth =
                          (if \<not> php_empty (p_username proxy) \<and> \<not> php_empty (p_password proxy)
                           then p_username proxy @ '':'' @ p_password proxy else []);
                        ch = ch\<lparr>c_PROXY := Some (p_host proxy), c_PROXYPORT := Some (p_port proxy)\<rparr>;
                        ch = (if \<not> php_empty proxyAuth then ch\<lparr>c_PROXYUSERPWD := Some proxyAuth\<rparr>
                              else ch);
                        proxyType = ToLower (p_type proxy)
                    in if proxyType = ''http'' then ch\<lparr>c_PROXYTYPE := Some CURLPROXY_HTTP\<rparr>
                       else if proxyType = ''https''
                       then ch\<lparr>c_PROXYTYPE := Some CURLPROXY_HTTP, c_HTTPPROXYTUNNEL := True\<rparr>
                       else if proxyType = ''socks4'' then ch\<lparr>c_PROXYTYPE := Some CURLPROXY_SOCKS4\<rparr>
                       else if proxyType = ''socks5'' then ch\<lparr>c_PROXYTYPE := Some CURLPROXY_SOCKS5\<rparr>
                       else ch))
      in case exec ch of
           Inl error \<Rightarrow> (None, error, [])
         | Inr (statusCode, headerText, body) \<Rightarrow>
             (Some statusCode, body, parse_headers (explode_crlf headerText) []))"

subsection \<open>Detection\<close>

text \<open>
  \<^verbatim>\<open>/<meta name="generator" content="WordPress ([0-9.]+)/\<close>,
  \<^verbatim>\<open>/ver=([0-9.]+)/\<close> and
  \<^verbatim>\<open>/wp-includes\/js\/wp-emoji-release\.min\.js\?ver=([0-9.]+)/\<close>
\<close>

definition php_versionPatterns :: "rx list" where
  \<open>php_versionPatterns =
     [rx_seq [Lit ''<meta name="generator" content="WordPress '', Grp (plus digits_dot)],
      rx_seq [Lit ''ver='', Grp (plus digits_dot)],
      rx_seq [Lit ''wp-includes/js/wp-emoji-release.min.js?ver='', Grp (plus digits_dot)]]\<close>

fun php_first_version :: "rx list \<Rightarrow> string \<Rightarrow> string option \<Rightarrow> string option" where
  "php_first_version [] body version = version"
| "php_first_version (pattern # patterns) body version =
     (let matches = FindStringSubmatch pattern body
      in if matches \<noteq> [] then Some (matches ! 1)
         else php_first_version patterns body version)"

text \<open>\<^verbatim>\<open>array_values(array_unique(xs))\<close>: the first occurrence of each value, in order.\<close>

fun unique_from :: "string list \<Rightarrow> string list \<Rightarrow> string list" where
  "unique_from seen [] = []"
| "unique_from seen (x # xs) =
     (if x \<in> set seen then unique_from seen xs else x # unique_from (x # seen) xs)"

definition array_unique :: "string list \<Rightarrow> string list" where
  "array_unique xs = unique_from [] xs"

definition php_processWordPressData :: "php_result \<Rightarrow> string \<Rightarrow> php_result" where
  "php_processWordPressData result body =
     (let isWp = list_ex (\<lambda>indicator. Contains body indicator) wpIndicators;
          result = result\<lparr>r_is_wordpress := isWp\<rparr>
      in if \<not> isWp then result
         else let result = result\<lparr>r_wp_version :=
                              php_first_version php_versionPatterns body (r_wp_version result)\<rparr>;
                  matches = FindStringSubmatch themePattern body;
                  result = (if matches \<noteq> [] then result\<lparr>r_wp_theme := Some (matches ! 1)\<rparr>
                            else result);
                  matches1 = map (\<lambda>m. m ! 1) (FindAllStringSubmatch pluginPattern body)
              in if matches1 \<noteq> [] then result\<lparr>r_wp_plugins := array_unique matches1\<rparr>
                 else result)"

subsection \<open>The proxy file\<close>

text \<open>
  The file is modelled by its lines, each line by the fields that \<^verbatim>\<open>fgetcsv\<close>
  and \<^verbatim>\<open>str_getcsv\<close> read from it (an empty line reads as one field), or \<open>None\<close>
  when the file does not exist.
\<close>

definition php_proxy_of :: "string list \<Rightarrow> php_proxy" where
  "php_proxy_of data =
     \<lparr>p_host = data ! 0, p_port = data ! 1, p_username = data ! 2, p_password = data ! 3,
      p_type = data ! 4, p_active = (ToLower (data ! 5) = ''true'')\<rparr>"

fun php_load_rows :: "string list list \<Rightarrow> php_proxy list" where
  "php_load_rows [] = []"
| "php_load_rows (data # rest) =
     (if length data < 6 then php_load_rows rest
      else php_proxy_of data # php_load_rows rest)"

definition php_loadProxies :: "string list list option \<Rightarrow> php_proxy list" where
  "php_loadProxies file =
     (case file of
        None \<Rightarrow> []
      | Some [] \<Rightarrow> []
      | Some (header # rows) \<Rightarrow> php_load_rows rows)"

text \<open>\<open>markProxyAsInactive\<close> receives the proxies by value: all it changes is
  the file, which it returns with its success status.\<close>

definition php_markProxyAsInactive :: "php_proxy list \<Rightarrow> nat \<Rightarrow> string list list option
      \<Rightarrow> string list list option \<times> bool" where
  "php_markProxyAsInactive proxies index file =
     (case file of
        None \<Rightarrow> (None, False)
      | Some lines \<Rightarrow>
         (let lineIndex = index + 1;
              lines = (if lineIndex < length lines
                       then (let data = lines ! lineIndex
                             in if 6 \<le> length data
                                then lines[lineIndex := data[5 := ''false'']]
                                else lines)
                       else lines)
          in (Some lines, True)))"

subsection \<open>One domain\<close>

definition php_record_redirect :: "php_result \<Rightarrow> (string \<times> string) list \<Rightarrow> int \<Rightarrow> php_result" where
  "php_record_redirect result headers statusCode =
     (if (statusCode = 301 \<or> statusCode = 302) \<and> map_of headers ''location'' \<noteq> None
      then result\<lparr>r_redirect_location := map_of headers ''location''\<rparr>
      else result)"

fun php_proxy_loop :: "curl_exec \<Rightarrow> string \<Rightarrow> php_result \<Rightarrow> php_proxy list
      \<Rightarrow> string list list option \<Rightarrow> nat \<Rightarrow> php_proxy list
      \<Rightarrow> php_result option \<times> string list list option" where
  "php_proxy_loop exec domain result proxies file index [] = (None, file)"
| "php_proxy_loop exec domain result proxies file index (proxy # rest) =
     (if \<not> p_active proxy then php_proxy_loop exec domain result proxies file (Suc index) rest
      else (case php_fetchUrl exec domain (Some proxy) of
              (None, body, headers) \<Rightarrow>
                php_proxy_loop exec domain result proxies
                  (fst (php_markProxyAsInactive proxies index file)) (Suc index) rest
            | (Some statusCode, body, headers) \<Rightarrow>
                (let result = result\<lparr>r_status_code := Some statusCode, r_headers := headers,
                                     r_proxy_used := Some (p_host proxy @ '':'' @ p_port proxy)\<rparr>;
                     result = php_record_redirect result headers statusCode
                 in (Some (php_processWordPressData result body), file))))"

definition php_checkDomain :: "curl_exec \<Rightarrow> string list list option \<Rightarrow> string
      \<Rightarrow> php_result \<times> string list list option" where
  "php_checkDomain exec file domain =
     (let domain = (if \<not> (prefix ''http://'' (ToLower domain) \<or> prefix ''https://'' (ToLower domain))
                    then ''https://'' @ domain else domain);
          result = \<lparr>r_domain = domain, r_status_code = None, r_is_wordpress = False,
                    r_wp_version = None, r_wp_theme = None, r_wp_plugins = [], r_headers = [],
                    r_error = None, r_proxy_used = None, r_redirect_location = None\<rparr>
      in case php_fetchUrl exec domain None of
           (None, body, headers) \<Rightarrow> (result\<lparr>r_error := Some (''Connection error: '' @ body)\<rparr>, file)
         | (Some statusCode, body, headers) \<Rightarrow>
            (let result = result\<lparr>r_status_code := Some statusCode, r_headers := headers\<rparr>;
                 result = php_record_redirect result headers statusCode
             in if statusCode \<noteq> 403 then (php_processWordPressData result body, file)
                else let proxies = php_loadProxies file in
                if proxies = [] then (result\<lparr>r_error := Some ''No proxies available''\<rparr>, file)
                else (case php_proxy_loop exec domain result proxies file 0 proxies of
                        (Some result, file) \<Rightarrow> (result, file)
                      | (None, file) \<Rightarrow>
                          (result\<lparr>r_status_code := Some 403,
                                  r_error := Some ''All proxies failed or returned 403''\<rparr>, file))))"

section \<open>The statements of the specification\<close>

subsection \<open>Version extraction as an ordered list of patterns\<close>

text \<open>
  The five version patterns of \<open>detectWordPress\<close> in the order of the source,
  each with the label that the evidence string starts with. A pattern
  contributes one candidate, the group of its leftmost match; the first
  candidate in the order of the list that passes the format check wins.
\<close>

definition version_sources :: "(rx \<times> string) list" where
  "version_sources =
     [(metaRegex, ''meta generator: ''),
      (embedRegex, ''wp-embed.min.js: ''),
      (emojiRegex, ''wp-emoji-release.min.js: ''),
      (verRegex, ''asset version: ''),
      (elementorMetaRegex, ''elementor meta generator: '')]"

definition candidate :: "rx \<Rightarrow> string \<Rightarrow> string option" where
  "candidate r body =
     (let matches = FindStringSubmatch r body
      in if 1 < length matches then Some (matches ! 1) else None)"

fun spec_first_valid :: "(rx \<times> string) list \<Rightarrow> string \<Rightarrow> (string \<times> string) option" where
  "spec_first_valid [] body = None"
| "spec_first_valid ((r, label) # sources) body =
     (case candidate r body of
        None \<Rightarrow> spec_first_valid sources body
      | Some v \<Rightarrow> if isValidVersion v then Some (v, label) else spec_first_valid sources body)"

text \<open>A generator meta tag as WordPress writes it, for a given version.\<close>

definition generator_tag :: "string \<Rightarrow> string" where
  \<open>generator_tag v = ''<meta name="generator" content="WordPress '' @ v @ ''" />''\<close>

subsection \<open>The version format\<close>

text \<open>
  A version is a major component from 4 to 9 followed by one or two further
  components, each a numeral of one or two digits (0 to 99), with dots between
  the components.
\<close>

definition is_digit :: "char \<Rightarrow> bool" where
  "is_digit c = (c \<in> set ''0123456789'')"

definition spec_major :: "string \<Rightarrow> bool" where
  "spec_major m = (m \<in> set [''4'', ''5'', ''6'', ''7'', ''8'', ''9''])"

definition spec_component :: "string \<Rightarrow> bool" where
  "spec_component c = ((length c = 1 \<or> length c = 2) \<and> list_all is_digit c)"

definition spec_version_format :: "string \<Rightarrow> bool" where
  "spec_version_format v =
     (case split_on (CHR ''.'') v of
        [major, minor] \<Rightarrow> spec_major major \<and> spec_component minor
      | [major, minor, patch] \<Rightarrow> spec_major major \<and> spec_component minor \<and> spec_component patch
      | _ \<Rightarrow> False)"

text \<open>The characters of a version, and the part of the pattern after the minor
  component with the texts it accepts.\<close>

definition is_major :: "char \<Rightarrow> bool" where
  "is_major c = (c \<in> set ''456789'')"

definition patchRegex :: rx where
  "patchRegex = Opt (Grp (rx_seq [Lit ''.'', Rep digit 1 (Some 2)]))"

definition patch_ok :: "string \<Rightarrow> bool" where
  "patch_ok r =
     (r = [] \<or> (\<exists>c. is_digit c \<and> (r = [CHR ''.'', c] \<or> (\<exists>d. is_digit d \<and> r = [CHR ''.'', c, d]))))"

subsection \<open>Markers\<close>

text \<open>The marker strings of \<open>detectWordPress\<close>; a body has a marker when its
  lower-case form contains one of them.\<close>

definition markers :: "string list" where
  "markers = [''wp-content'', ''wp-includes'', ''wp-json'', ''wp-emoji'', ''elementor'']"

definition has_marker :: "string \<Rightarrow> bool" where
  "has_marker body = list_ex (Contains (ToLower body)) markers"

subsection \<open>Example bodies\<close>

text \<open>A page with a marker, a stylesheet with a version parameter and two
  generator tags, the first with a version outside the accepted band.\<close>

definition two_generators_body :: string where
  \<open>two_generators_body =
     ''<link href="/wp-content/a.css?ver=6.1">'' @ generator_tag ''3.9'' @ generator_tag ''5.8''\<close>

text \<open>A page with a marker, a stylesheet with a version parameter and one
  generator tag.\<close>

definition generator_body :: string where
  \<open>generator_body = ''<link href="/wp-content/a.css?ver=6.1">'' @ generator_tag ''5.8''\<close>

text \<open>A page whose only version candidate lies outside the accepted band.\<close>

definition old_version_body :: string where
  \<open>old_version_body = ''<link href="/wp-content/a.css?ver=3.9">''\<close>

subsection \<open>The requests of one domain\<close>









subsection \<open>Example worlds\<close>






text \<open>The same for the prototype with proxies: every address parses, and the
  keys of a map are visited in the order in which they were stored.\<close>

definition world'_of :: "network \<Rightarrow> world'" where
  "world'_of n = \<lparr>net' = n, url_Parse = (\<lambda>address. None), range_order = (\<lambda>keys. keys)\<rparr>"



subsection \<open>Redirects\<close>







text \<open>The result record as \<open>main\<close> of the prototype creates it.\<close>

definition new_result :: "string \<Rightarrow> DomainResult" where
  "new_result domain =
     \<lparr>Domain' = domain, StatusCode' = 0, IsWordPress' = False, WPVersion = [], WPTheme = [],
      WPPlugins = [], Headers = [], Error = [], ProxyUsed = [], RedirectLocation = []\<rparr>"

subsection \<open>The proxy pool\<close>

text \<open>
  A record that \<^verbatim>\<open>encoding/csv\<close> reads has at least one field (it passes over
  empty lines). \<open>pool_file fs n\<close> describes the file after a load that
  produced \<open>n\<close> proxies, \<open>n\<close> not zero: a header of six fields or more and \<open>n\<close>
  records with as many fields as the header.
\<close>

definition csv_wellformed :: "files \<Rightarrow> bool" where
  "csv_wellformed fs =
     (case proxies_csv fs of None \<Rightarrow> True | Some records \<Rightarrow> [] \<notin> set records)"

definition pool_file :: "files \<Rightarrow> nat \<Rightarrow> bool" where
  "pool_file fs n =
     (\<exists>header rows. proxies_csv fs = Some (header # rows) \<and> 6 \<le> length header
        \<and> (\<forall>r \<in> set rows. length r = length header) \<and> length rows = n)"

text \<open>The domain with its scheme, as \<open>main\<close> and the PHP \<open>checkDomain\<close> complete
  it, and a proxy through which the request for a domain fails.\<close>

definition with_scheme :: "string \<Rightarrow> string" where
  "with_scheme domain =
     (if \<not> prefix ''http://'' domain \<and> \<not> prefix ''https://'' domain
      then ''https://'' @ domain else domain)"

definition php_with_scheme :: "string \<Rightarrow> string" where
  "php_with_scheme domain =
     (if \<not> (prefix ''http://'' (ToLower domain) \<or> prefix ''https://'' (ToLower domain))
      then ''https://'' @ domain else domain)"

definition proxy_fails :: "world' \<Rightarrow> string \<Rightarrow> Proxy \<Rightarrow> bool" where
  "proxy_fails w domain proxy =
     (case checkDomain' w domain (Some proxy) of
        (statusCode, body, headers, err) \<Rightarrow> err \<noteq> None)"

definition php_proxy_fails :: "curl_exec \<Rightarrow> string \<Rightarrow> php_proxy \<Rightarrow> bool" where
  "php_proxy_fails exec domain proxy =
     (case php_fetchUrl exec domain (Some proxy) of
        (statusCode, body, headers) \<Rightarrow> statusCode = None)"

text \<open>A proxy file with two proxies, the first inactive, and a site that
  refuses the direct request while no proxy can be reached.\<close>

definition two_proxies :: "string list list" where
  "two_proxies =
     [[''host'', ''port'', ''username'', ''password'', ''type'', ''active''],
      [''10.0.0.1'', ''8080'', '''', '''', ''http'', ''false''],
      [''10.0.0.2'', ''1080'', ''user'', ''secret'', ''socks5'', ''true'']]"

definition two_proxies_files :: files where
  "two_proxies_files = \<lparr>proxies_csv = Some two_proxies, writable = True\<rparr>"

definition forbidden :: http_response where
  "forbidden = \<lparr>StatusCode = 403, Header = [], Body = ''Forbidden'', ReadError = None\<rparr>"

definition blocked_net :: network where
  "blocked_net =
     (\<lambda>client hdrs url.
        case ProxyURL client of
          None \<Rightarrow> Inr forbidden
        | Some address \<Rightarrow> Inl ''proxyconnect tcp: connection refused'')"

definition blocked_exec :: curl_exec where
  "blocked_exec =
     (\<lambda>ch. case c_PROXY ch of
              None \<Rightarrow> Inr (403, [], ''Forbidden'')
            | Some address \<Rightarrow> Inl ''Failed to connect to proxy'')"

subsection \<open>Themes and add-ons\<close>

text \<open>The directory names that the successive matches of the add-on pattern
  and of the theme pattern capture in a body, from left to right.\<close>

definition plugin_names :: "string \<Rightarrow> string list" where
  "plugin_names body = map (\<lambda>m. m ! 1) (FindAllStringSubmatch pluginPattern body)"

definition theme_names :: "string \<Rightarrow> string list" where
  "theme_names body = map (\<lambda>m. m ! 1) (FindAllStringSubmatch themePattern body)"

text \<open>The result array as the PHP \<open>checkDomain\<close> creates it.\<close>

definition php_new_result :: "string \<Rightarrow> php_result" where
  "php_new_result domain =
     \<lparr>r_domain = domain, r_status_code = None, r_is_wordpress = False, r_wp_version = None,
      r_wp_theme = None, r_wp_plugins = [], r_headers = [], r_error = None, r_proxy_used = None,
      r_redirect_location = None\<rparr>"

text \<open>Two pages that refer to the add-ons \<open>foo\<close> and \<open>bar\<close> twice each and to one
  theme; in the second the first reference is to \<open>bar\<close>.\<close>

definition foo_bar_body :: string where
  \<open>foo_bar_body =
     ''<script src="/wp-content/plugins/foo/a.js"></script>''
     @ ''<link href="/wp-content/plugins/bar/b.css">''
     @ ''<script src="/wp-content/plugins/foo/c.js"></script>''
     @ ''<link href="/wp-content/plugins/bar/d.css">''
     @ ''<link href="/wp-content/themes/twenty/style.css">''\<close>

definition bar_foo_body :: string where
  \<open>bar_foo_body =
     ''<link href="/wp-content/plugins/bar/b.css">''
     @ ''<script src="/wp-content/plugins/foo/a.js"></script>''
     @ ''<script src="/wp-content/plugins/foo/c.js"></script>''
     @ ''<link href="/wp-content/plugins/bar/d.css">''
     @ ''<link href="/wp-content/themes/twenty/style.css">''\<close>

section \<open>Properties\<close>

subsection \<open>The version format\<close>


lemma digit_is_digit: "in_cls digit c = is_digit c"
  by (simp add: digit_def is_digit_def)


lemma major_cls: "in_cls (OneOf ''456789'') c = is_major c"
  by (simp add: is_major_def)

lemma spec_major_iff: "spec_major m = (\<exists>c. m = [c] \<and> is_major c)"
  by (auto simp: spec_major_def is_major_def)

lemma spec_component_iff:
  "spec_component c = ((\<exists>a. c = [a] \<and> is_digit a) \<or> (\<exists>a b. c = [a, b] \<and> is_digit a \<and> is_digit b))"
  by (auto simp: spec_component_def length_Suc_conv numeral_2_eq_2)

lemma dot_not_digit [simp]: "\<not> is_digit (CHR ''.'')"
  by (simp add: is_digit_def)

lemma dot_not_major [simp]: "\<not> is_major (CHR ''.'')"
  by (simp add: is_major_def)

lemma rep_full: "h \<le> n \<Longrightarrow> rep_go c lo (Some h) n s k = (if lo \<le> n then k s else None)"
  by (cases s) auto

lemma rep12_accepts:
  "(rep_go c (Suc 0) (Some 2) 0 s k \<noteq> None) =
   (\<exists>a r. s = a # r \<and> in_cls c a \<and>
      (k r \<noteq> None \<or> (\<exists>b r'. r = b # r' \<and> in_cls c b \<and> k r' \<noteq> None)))"
proof (cases s)
  case Nil
  then show ?thesis by simp
next
  case (Cons a r)
  show ?thesis
  proof (cases r)
    case Nil
    with Cons show ?thesis by (auto simp: numeral_2_eq_2 split: option.splits)
  next
    case (Cons b r')
    with \<open>s = a # r\<close> show ?thesis
      by (auto simp: numeral_2_eq_2 rep_full split: option.splits)
  qed
qed

lemma rep11_accepts:
  "(rep_go c (Suc 0) (Some (Suc 0)) 0 s k \<noteq> None) = (\<exists>a r. s = a # r \<and> in_cls c a \<and> k r \<noteq> None)"
  by (cases s) (auto split: option.splits simp: rep_full)

lemma strip_prefix_Some: "(strip_prefix p s = Some r) = (s = p @ r)"
  by (induction p s rule: strip_prefix.induct) auto

lemma strip_prefix_append [simp]: "strip_prefix p (p @ r) = Some r"
  by (simp add: strip_prefix_Some)

lemma lit_accepts:
  "(rx_go (Lit p) s caps k \<noteq> None) = (\<exists>r. s = p @ r \<and> k r caps \<noteq> None)"
  by (cases "strip_prefix p s") (auto simp: strip_prefix_Some)

lemma opt_accepts:
  "(rx_go (Opt a) s caps k \<noteq> None) = (rx_go a s caps k \<noteq> None \<or> k s caps \<noteq> None)"
  by (auto split: option.splits)



lemma patch_accepts:
  "(rx_go patchRegex r caps
       (\<lambda>rest caps'. rx_go (Lit []) rest caps' (\<lambda>rest caps. if rest = [] then Some () else None)) \<noteq> None)
   = patch_ok r"
  unfolding patchRegex_def rx_seq_def foldr.simps o_apply One_nat_def
  unfolding opt_accepts rx_go.simps(3,5) rx_go.simps(2) lit_accepts rep12_accepts digit_is_digit patch_ok_def
  by auto

lemma validVersionRegex_patch:
  "validVersionRegex = rx_seq [one (OneOf ''456789''), Lit ''.'', Rep digit 1 (Some 2), patchRegex]"
  by (simp add: validVersionRegex_def patchRegex_def)

lemma isValid_unfold:
  "isValidVersion v =
     (\<exists>m a r. v = m # CHR ''.'' # a # r \<and> is_major m \<and> is_digit a \<and>
        (patch_ok r \<or> (\<exists>b r'. r = b # r' \<and> is_digit b \<and> patch_ok r')))"
  unfolding isValidVersion_def MatchWhole_def validVersionRegex_patch rx_seq_def one_def
  apply (simp only: foldr.simps o_apply id_apply One_nat_def)
  apply (simp only: rx_go.simps(2,3) rep11_accepts rep12_accepts lit_accepts major_cls digit_is_digit patch_accepts)
  apply auto
  done

lemma split_on_no_sep: "d \<notin> set s \<Longrightarrow> split_on d s = [s]"
  by (induction s) auto

lemma split_on_append: "d \<notin> set a \<Longrightarrow> split_on d (a @ d # b) = a # split_on d b"
  by (induction a) auto

lemma split_on_not_Nil [simp]: "split_on d v \<noteq> []"
  by (induction v) (auto split: list.splits)

lemma split_on_Cons:
  "split_on d v = x # ys \<Longrightarrow>
     d \<notin> set x \<and> (if ys = [] then v = x else (\<exists>b. v = x @ d # b \<and> split_on d b = ys))"
proof (induction v arbitrary: x ys)
  case Nil
  then show ?case by auto
next
  case (Cons c v)
  show ?case
  proof (cases "c = d")
    case True
    with Cons.prems show ?thesis by auto
  next
    case False
    obtain p ps where sp: "split_on d v = p # ps"
      by (cases "split_on d v") auto
    from Cons.IH[OF sp] have ih: "d \<notin> set p" "if ps = [] then v = p else (\<exists>b. v = p @ d # b \<and> split_on d b = ps)"
      by auto
    from Cons.prems False sp have x: "x = c # p" "ys = ps" by auto
    show ?thesis using ih False unfolding x by (auto split: if_splits)
  qed
qed

lemma spec_format_shapes:
  "spec_version_format v =
     (\<exists>m a r. v = m # CHR ''.'' # a # r \<and> is_major m \<and> is_digit a \<and>
        (patch_ok r \<or> (\<exists>b r'. r = b # r' \<and> is_digit b \<and> patch_ok r')))"
  (is "?L = ?R")
proof
  assume ?L
  then obtain x ys where sp: "split_on (CHR ''.'') v = x # ys"
    by (cases "split_on (CHR ''.'') v") auto
  from split_on_Cons[OF sp] \<open>?L\<close> sp obtain y zs b where
    1: "v = x @ CHR ''.'' # b" "split_on (CHR ''.'') b = y # zs" "ys = y # zs"
    by (cases ys) (auto simp: spec_version_format_def)
  show ?R
  proof (cases zs)
    case Nil
    with split_on_Cons[OF 1(2)] have "b = y" by simp
    with \<open>?L\<close> sp 1 Nil show ?thesis
      by (auto simp: spec_version_format_def spec_major_iff spec_component_iff patch_ok_def)
  next
    case (Cons z zs')
    with split_on_Cons[OF 1(2)] obtain b' where 2: "b = y @ CHR ''.'' # b'" "split_on (CHR ''.'') b' = z # zs'"
      by auto
    from \<open>?L\<close> sp 1 Cons have zs': "zs' = []"
      by (cases zs') (auto simp: spec_version_format_def)
    with split_on_Cons[OF 2(2)] have "b' = z" by simp
    with \<open>?L\<close> sp 1 2 Cons zs' show ?thesis
      by (auto simp: spec_version_format_def spec_major_iff spec_component_iff patch_ok_def)
  qed
next
  assume ?R
  then obtain m a r where v: "v = m # CHR ''.'' # a # r" and m: "is_major m" and a: "is_digit a"
    and r: "patch_ok r \<or> (\<exists>b r'. r = b # r' \<and> is_digit b \<and> patch_ok r')"
    by blast
  have nd: "\<And>c. is_digit c \<Longrightarrow> c \<noteq> CHR ''.''" "m \<noteq> CHR ''.''"
    using m by auto
  from r show ?L
    unfolding v patch_ok_def spec_version_format_def
    using m a nd
    by (auto simp: spec_major_iff spec_component_iff split: list.splits)
qed

lemma isValidVersion_spec: "isValidVersion v = spec_version_format v"
  by (simp only: isValid_unfold spec_format_shapes)


subsection \<open>Version extraction\<close>


lemma candidate_matches:
  "(1 < length (FindStringSubmatch r body) \<and> P (FindStringSubmatch r body ! 1)) =
   (case candidate r body of None \<Rightarrow> False | Some v \<Rightarrow> P v)"
  by (simp add: candidate_def Let_def)

lemma detectWordPress_sources:
  assumes "find_evidences (ToLower body) \<noteq> []"
  shows "detectWordPress body =
     (case spec_first_valid version_sources body of
        Some (v, label) \<Rightarrow> (True, v, label @ Join (find_evidences (ToLower body)) '', '')
      | None \<Rightarrow> (True, ''Unknown'', Join (find_evidences (ToLower body)) '', ''))"
  using assms
  by (simp add: detectWordPress_def version_sources_def candidate_def Let_def)



lemma find_evidences_markers: "find_evidences b = filter (Contains b) markers"
  by (simp add: find_evidences_def markers_def)

lemma has_marker_evidences: "has_marker body = (find_evidences (ToLower body) \<noteq> [])"
  by (simp add: has_marker_def find_evidences_markers list_ex_iff filter_empty_conv)

lemma spec_first_valid_Some:
  "(spec_first_valid sources body = Some (v, label)) =
     (\<exists>i < length sources.
        snd (sources ! i) = label \<and> candidate (fst (sources ! i)) body = Some v \<and> isValidVersion v \<and>
        (\<forall>j < i. \<forall>c. candidate (fst (sources ! j)) body = Some c \<longrightarrow> \<not> isValidVersion c))"
proof (induction sources)
  case Nil
  then show ?case by simp
next
  case (Cons s sources)
  obtain r l where s: "s = (r, l)" by (cases s)
  show ?case
  proof (cases "\<exists>c. candidate r body = Some c \<and> isValidVersion c")
    case True
    then obtain c where c: "candidate r body = Some c" "isValidVersion c" by blast
    show ?thesis
    proof
      assume "spec_first_valid (s # sources) body = Some (v, label)"
      with s c have "v = c" "label = l" by auto
      with s c show "\<exists>i<length (s # sources).
        snd ((s # sources) ! i) = label \<and> candidate (fst ((s # sources) ! i)) body = Some v \<and> isValidVersion v \<and>
        (\<forall>j < i. \<forall>c. candidate (fst ((s # sources) ! j)) body = Some c \<longrightarrow> \<not> isValidVersion c)"
        by (intro exI[of _ 0]) simp
    next
      assume "\<exists>i<length (s # sources).
        snd ((s # sources) ! i) = label \<and> candidate (fst ((s # sources) ! i)) body = Some v \<and> isValidVersion v \<and>
        (\<forall>j < i. \<forall>c. candidate (fst ((s # sources) ! j)) body = Some c \<longrightarrow> \<not> isValidVersion c)"
      then obtain i where i: "i < length (s # sources)" "snd ((s # sources) ! i) = label"
        "candidate (fst ((s # sources) ! i)) body = Some v" "isValidVersion v"
        "\<forall>j < i. \<forall>c. candidate (fst ((s # sources) ! j)) body = Some c \<longrightarrow> \<not> isValidVersion c"
        by blast
      have "i = 0"
      proof (rule ccontr)
        assume "i \<noteq> 0"
        then have "0 < i" by simp
        with i(5) s c show False by auto
      qed
      with i s c show "spec_first_valid (s # sources) body = Some (v, label)" by auto
    qed
  next
    case False
    then have step: "spec_first_valid (s # sources) body = spec_first_valid sources body"
      using s by (auto split: option.splits)
    show ?thesis
      unfolding step Cons.IH
    proof
      assume "\<exists>i<length sources.
        snd (sources ! i) = label \<and> candidate (fst (sources ! i)) body = Some v \<and> isValidVersion v \<and>
        (\<forall>j < i. \<forall>c. candidate (fst (sources ! j)) body = Some c \<longrightarrow> \<not> isValidVersion c)"
      then obtain i where i: "i < length sources" "snd (sources ! i) = label"
        "candidate (fst (sources ! i)) body = Some v" "isValidVersion v"
        "\<forall>j < i. \<forall>c. candidate (fst (sources ! j)) body = Some c \<longrightarrow> \<not> isValidVersion c"
        by blast
      have "\<forall>j < Suc i. \<forall>c. candidate (fst ((s # sources) ! j)) body = Some c \<longrightarrow> \<not> isValidVersion c"
        using i(5) False s by (auto simp: less_Suc_eq_0_disj)
      with i show "\<exists>i<length (s # sources).
        snd ((s # sources) ! i) = label \<and> candidate (fst ((s # sources) ! i)) body = Some v \<and> isValidVersion v \<and>
        (\<forall>j < i. \<forall>c. candidate (fst ((s # sources) ! j)) body = Some c \<longrightarrow> \<not> isValidVersion c)"
        by (intro exI[of _ "Suc i"]) simp
    next
      assume "\<exists>i<length (s # sources).
        snd ((s # sources) ! i) = label \<and> candidate (fst ((s # sources) ! i)) body = Some v \<and> isValidVersion v \<and>
        (\<forall>j < i. \<forall>c. candidate (fst ((s # sources) ! j)) body = Some c \<longrightarrow> \<not> isValidVersion c)"
      then obtain i where i: "i < length (s # sources)" "snd ((s # sources) ! i) = label"
        "candidate (fst ((s # sources) ! i)) body = Some v" "isValidVersion v"
        "\<forall>j < i. \<forall>c. candidate (fst ((s # sources) ! j)) body = Some c \<longrightarrow> \<not> isValidVersion c"
        by blast
      from i(3,4) False s have "i \<noteq> 0" by (cases i) auto
      then obtain i' where i': "i = Suc i'" by (cases i) auto
      have "\<forall>j < i'. \<forall>c. candidate (fst (sources ! j)) body = Some c \<longrightarrow> \<not> isValidVersion c"
        using i(5) i' by (metis Suc_less_eq nth_Cons_Suc)
      with i i' show "\<exists>i<length sources.
        snd (sources ! i) = label \<and> candidate (fst (sources ! i)) body = Some v \<and> isValidVersion v \<and>
        (\<forall>j < i. \<forall>c. candidate (fst (sources ! j)) body = Some c \<longrightarrow> \<not> isValidVersion c)"
        by (intro exI[of _ i']) simp
    qed
  qed
qed

lemma spec_first_valid_None:
  "(spec_first_valid sources body = None) =
     (\<forall>s \<in> set sources. \<forall>c. candidate (fst s) body = Some c \<longrightarrow> \<not> isValidVersion c)"
  by (induction sources) (auto split: option.splits if_splits)

lemma spec_first_valid_valid:
  "spec_first_valid sources body = Some (v, label) \<Longrightarrow> isValidVersion v"
  by (simp add: spec_first_valid_Some) blast


text \<open>
  Claim C1, as amended. For a body with a marker, \<open>detectWordPress\<close> of
  \<^verbatim>\<open>main.go\<close> goes through its five patterns in order; each pattern
  contributes the group of its leftmost match as its only candidate, and the
  first candidate that passes the format check is the version, with the label
  of its pattern in the evidence. In particular, when the leftmost generator
  meta tag carries an acceptable version, that version is reported, whatever
  \<^verbatim>\<open>ver=\<close> parameters the body holds.
\<close>

theorem version_pattern_order:
  assumes "has_marker body"
  shows "(\<forall>i v. i < length version_sources
            \<and> candidate (fst (version_sources ! i)) body = Some v \<and> isValidVersion v
            \<and> (\<forall>j < i. \<forall>c. candidate (fst (version_sources ! j)) body = Some c
                   \<longrightarrow> \<not> isValidVersion c)
          \<longrightarrow> detectWordPress body =
                (True, v, snd (version_sources ! i) @ Join (find_evidences (ToLower body)) '', ''))
       \<and> (\<forall>v. candidate metaRegex body = Some v \<and> isValidVersion v
          \<longrightarrow> detectWordPress body =
                (True, v, ''meta generator: '' @ Join (find_evidences (ToLower body)) '', ''))"
proof -
  from assms have ev: "find_evidences (ToLower body) \<noteq> []"
    by (simp add: has_marker_evidences)
  have first: "detectWordPress body =
      (True, v, snd (version_sources ! i) @ Join (find_evidences (ToLower body)) '', '')"
    if "i < length version_sources" "candidate (fst (version_sources ! i)) body = Some v"
       "isValidVersion v"
       "\<forall>j < i. \<forall>c. candidate (fst (version_sources ! j)) body = Some c \<longrightarrow> \<not> isValidVersion c"
    for i v
  proof -
    from that have "spec_first_valid version_sources body = Some (v, snd (version_sources ! i))"
      unfolding spec_first_valid_Some by blast
    then show ?thesis by (simp add: detectWordPress_sources [OF ev])
  qed
  have "detectWordPress body =
      (True, v, ''meta generator: '' @ Join (find_evidences (ToLower body)) '', '')"
    if "candidate metaRegex body = Some v" "isValidVersion v" for v
    using first [of 0 v] that by (simp add: version_sources_def)
  with first show ?thesis by blast
qed

theorem version_pattern_order_witness:
  "has_marker generator_body
   \<and> candidate metaRegex generator_body = Some ''5.8'' \<and> isValidVersion ''5.8''
   \<and> candidate verRegex generator_body = Some ''6.1'' \<and> isValidVersion ''6.1''
   \<and> detectWordPress generator_body = (True, ''5.8'', ''meta generator: wp-content'')"
proof -
  have m: "has_marker generator_body" by code_simp
  have c: "candidate metaRegex generator_body = Some ''5.8''" by code_simp
  have v: "isValidVersion ''5.8''" by code_simp
  have c': "candidate verRegex generator_body = Some ''6.1''" by code_simp
  have v': "isValidVersion ''6.1''" by code_simp
  have e: "''meta generator: '' @ Join (find_evidences (ToLower generator_body)) '', ''
           = ''meta generator: wp-content''" by code_simp
  from version_pattern_order [OF m] c v
  have "detectWordPress generator_body =
      (True, ''5.8'', ''meta generator: '' @ Join (find_evidences (ToLower generator_body)) '', '')"
    by blast
  with m c v c' v' e show ?thesis by simp
qed

text \<open>
  Claim C1 as stated fails: this body has a marker and contains a valid
  generator meta tag with the acceptable version 5.8, yet the version reported
  is that of the \<^verbatim>\<open>ver=\<close> parameter: the generator pattern stops at the tag
  before it, whose version is rejected.
\<close>

theorem generator_tag_not_chosen:
  "has_marker two_generators_body
   \<and> Contains two_generators_body (generator_tag ''5.8'')
   \<and> candidate metaRegex (generator_tag ''5.8'') = Some ''5.8'' \<and> isValidVersion ''5.8''
   \<and> candidate verRegex two_generators_body = Some ''6.1''
   \<and> detectWordPress two_generators_body = (True, ''6.1'', ''asset version: wp-content'')"
  by code_simp

text \<open>
  Claim C3. The format check accepts exactly the versions with a major
  component from 4 to 9 and one or two further components of one or two
  digits. For a body with a marker the platform is reported as detected; the
  outcome is that of the first source whose candidate passes the check, a
  candidate that fails it counting like no candidate; a reported version other
  than \<open>Unknown\<close> has the format; and when no source has a candidate that
  passes, the version is \<open>Unknown\<close>.
\<close>

theorem version_format_and_unknown:
  "isValidVersion v = spec_version_format v
   \<and> (has_marker body \<longrightarrow>
        fst (detectWordPress body)
        \<and> detectWordPress body =
            (case spec_first_valid version_sources body of
               Some (v, label) \<Rightarrow> (True, v, label @ Join (find_evidences (ToLower body)) '', '')
             | None \<Rightarrow> (True, ''Unknown'', Join (find_evidences (ToLower body)) '', ''))
        \<and> (fst (snd (detectWordPress body)) \<noteq> ''Unknown''
             \<longrightarrow> spec_version_format (fst (snd (detectWordPress body))))
        \<and> ((\<forall>s \<in> set version_sources. \<forall>c. candidate (fst s) body = Some c
                \<longrightarrow> \<not> spec_version_format c)
             \<longrightarrow> detectWordPress body =
                   (True, ''Unknown'', Join (find_evidences (ToLower body)) '', '')))"
proof (intro conjI impI)
  show "isValidVersion v = spec_version_format v" by (rule isValidVersion_spec)
next
  assume m: "has_marker body"
  then have ev: "find_evidences (ToLower body) \<noteq> []" by (simp add: has_marker_evidences)
  note d = detectWordPress_sources [OF ev]
  show "fst (detectWordPress body)"
    unfolding d by (simp split: option.splits)
  show "detectWordPress body =
            (case spec_first_valid version_sources body of
               Some (v, label) \<Rightarrow> (True, v, label @ Join (find_evidences (ToLower body)) '', '')
             | None \<Rightarrow> (True, ''Unknown'', Join (find_evidences (ToLower body)) '', ''))"
    by (rule d)
  show "spec_version_format (fst (snd (detectWordPress body)))"
    if "fst (snd (detectWordPress body)) \<noteq> ''Unknown''"
    using that unfolding d
    by (auto split: option.splits dest: spec_first_valid_valid simp: isValidVersion_spec)
  show "detectWordPress body = (True, ''Unknown'', Join (find_evidences (ToLower body)) '', '')"
    if "\<forall>s \<in> set version_sources. \<forall>c. candidate (fst s) body = Some c \<longrightarrow> \<not> spec_version_format c"
  proof -
    from that have "spec_first_valid version_sources body = None"
      unfolding spec_first_valid_None isValidVersion_spec by blast
    then show ?thesis unfolding d by simp
  qed
qed

theorem version_format_and_unknown_witness:
  "has_marker old_version_body
   \<and> candidate verRegex old_version_body = Some ''3.9'' \<and> \<not> spec_version_format ''3.9''
   \<and> detectWordPress old_version_body = (True, ''Unknown'', ''wp-content'')"
proof -
  have m: "has_marker old_version_body" by code_simp
  have c: "candidate verRegex old_version_body = Some ''3.9''" by code_simp
  have n: "\<not> spec_version_format ''3.9''" by code_simp
  have cs: "candidate metaRegex old_version_body = None"
    "candidate embedRegex old_version_body = None"
    "candidate emojiRegex old_version_body = None"
    "candidate elementorMetaRegex old_version_body = None"
    by code_simp+
  have a: "\<forall>s \<in> set version_sources. \<forall>c. candidate (fst s) old_version_body = Some c
          \<longrightarrow> \<not> spec_version_format c"
    using c n cs by (simp add: version_sources_def)
  have e: "Join (find_evidences (ToLower old_version_body)) '', '' = ''wp-content''" by code_simp
  from version_format_and_unknown [of "''3.9''" old_version_body] m a
  have "detectWordPress old_version_body =
          (True, ''Unknown'', Join (find_evidences (ToLower old_version_body)) '', '')"
    by blast
  with m c n e show ?thesis by simp
qed



subsection \<open>One domain in \<^verbatim>\<open>main.go\<close>\<close>



subsection \<open>Bodies without a marker\<close>
















subsection \<open>Blank screens\<close>









subsection \<open>Redirects\<close>




lemma processResult_keeps [simp]:
  "StatusCode' (processResult iter result body) = StatusCode' result"
  "RedirectLocation (processResult iter result body) = RedirectLocation result"
  by (cases "detectWordPress' iter body"; simp add: processResult_def Let_def)+

lemma record_redirect_keeps [simp]:
  "StatusCode' (record_redirect result headers statusCode) = StatusCode' result"
  by (simp add: record_redirect_def split: option.splits)








subsection \<open>The proxy file\<close>

lemma load_rows_uniform:
  "0 < k \<Longrightarrow> load_rows k rows = Inr ps \<Longrightarrow> \<forall>r \<in> set rows. length r = k"
  by (induction rows arbitrary: ps)
     (auto simp: fields_error_def fields_next_def split: if_splits sum.splits)

lemma load_rows_short:
  "0 < k \<Longrightarrow> k < 6 \<Longrightarrow> load_rows k rows = Inr ps \<Longrightarrow> ps = []"
  by (induction rows arbitrary: ps)
     (auto simp: fields_error_def fields_next_def split: if_splits sum.splits)

lemma load_rows_map:
  "6 \<le> k \<Longrightarrow> \<forall>r \<in> set rows. length r = k \<Longrightarrow> load_rows k rows = Inr (map proxy_of rows)"
  by (induction rows) (auto simp: fields_error_def fields_next_def)

lemma csv_records_uniform:
  "0 < k \<Longrightarrow> \<forall>r \<in> set rows. length r = k \<Longrightarrow> csv_records k rows = Inr rows"
  by (induction rows) (auto simp: fields_error_def fields_next_def)

lemma ReadAll_pool:
  assumes "6 \<le> length header" "\<forall>r \<in> set rows. length r = length header"
  shows "ReadAll (header # rows) = Inr (header # rows)"
proof -
  from assms(1) have "0 < length header" by (cases header) simp_all
  from csv_records_uniform [OF this assms(2)] show ?thesis
    by (simp add: ReadAll_def fields_error_def fields_next_def)
qed

lemma loadProxies_pool:
  assumes "csv_wellformed fs" "loadProxies fs = Inr proxies" "proxies \<noteq> []"
  obtains header rows where "proxies_csv fs = Some (header # rows)" "6 \<le> length header"
    "\<forall>r \<in> set rows. length r = length header" "proxies = map proxy_of rows"
proof -
  from assms(2) obtain header rows where f: "proxies_csv fs = Some (header # rows)"
    and l: "load_rows (length header) rows = Inr proxies"
    by (auto simp: loadProxies_def split: option.splits list.splits)
  from assms(1) f have pos: "0 < length header" by (auto simp: csv_wellformed_def)
  from load_rows_uniform [OF pos l] have u: "\<forall>r \<in> set rows. length r = length header" .
  have six: "6 \<le> length header"
  proof (rule ccontr)
    assume "\<not> 6 \<le> length header"
    then have "length header < 6" by simp
    from load_rows_short [OF pos this l] assms(3) show False by simp
  qed
  from load_rows_map [OF six u] l have "proxies = map proxy_of rows" by simp
  with f six u show ?thesis by (rule that)
qed

lemma pool_file_loadProxies:
  "csv_wellformed fs \<Longrightarrow> loadProxies fs = Inr proxies \<Longrightarrow> proxies \<noteq> []
     \<Longrightarrow> pool_file fs (length proxies)"
  by (erule (2) loadProxies_pool) (auto simp: pool_file_def)

lemma proxy_of_deactivated:
  "6 \<le> length r \<Longrightarrow> proxy_of (r[5 := ''false'']) = (proxy_of r)\<lparr>Active := False\<rparr>"
  by (simp add: proxy_of_def ParseBool_def)

lemma markProxyAsInactive_pool:
  assumes f: "proxies_csv fs = Some (header # rows)" and six: "6 \<le> length header"
    and u: "\<forall>r \<in> set rows. length r = length header"
    and len: "length proxies = length rows" and i: "i < length proxies"
  shows "markProxyAsInactive proxies i fs =
     Inr (proxies[i := (proxies ! i)\<lparr>Active := False\<rparr>],
          if writable fs
          then fs\<lparr>proxies_csv := Some (header # rows[i := (rows ! i)[5 := ''false'']])\<rparr> else fs,
          if writable fs then None else Some ''open proxies.csv: permission denied'')"
proof -
  from i len have ri: "rows ! i \<in> set rows" by simp
  with u six have "5 < length (rows ! i)" by auto
  with f ReadAll_pool [OF six u] i len show ?thesis
    by (simp add: markProxyAsInactive_def Let_def)
qed

lemma update_uniform:
  assumes "\<forall>r \<in> set rows. length r = k" "i < length rows"
  shows "\<forall>r \<in> set (rows[i := (rows ! i)[5 := v]]). length r = k"
proof
  fix r assume "r \<in> set (rows[i := (rows ! i)[5 := v]])"
  then obtain j where j: "j < length rows" "r = rows[i := (rows ! i)[5 := v]] ! j"
    unfolding in_set_conv_nth by auto
  have "length (rows ! j) = k" "length (rows ! i) = k"
    using assms j(1) by simp_all
  then show "length r = k"
    unfolding j(2) using j(1) by (cases "i = j") simp_all
qed

lemma pool_file_mark:
  assumes "pool_file fs (length proxies)" "i < length proxies"
  shows "\<exists>ps' fs' err. markProxyAsInactive proxies i fs = Inr (ps', fs', err)
           \<and> length ps' = length proxies \<and> pool_file fs' (length ps')"
proof -
  from assms(1) obtain header rows where f: "proxies_csv fs = Some (header # rows)"
    and six: "6 \<le> length header" and u: "\<forall>r \<in> set rows. length r = length header"
    and len: "length rows = length proxies"
    unfolding pool_file_def by blast
  let ?ps = "proxies[i := (proxies ! i)\<lparr>Active := False\<rparr>]"
  let ?fs = "fs\<lparr>proxies_csv := Some (header # rows[i := (rows ! i)[5 := ''false'']])\<rparr>"
  have u': "\<forall>r \<in> set (rows[i := (rows ! i)[5 := ''false'']]). length r = length header"
    using u assms(2) len by (intro update_uniform) simp_all
  have p': "pool_file ?fs (length ?ps)"
    unfolding pool_file_def
    by (rule exI [of _ header], rule exI [of _ "rows[i := (rows ! i)[5 := ''false'']]"])
       (use six u' len in simp)
  have p: "pool_file fs (length ?ps)" using assms(1) by simp
  note m = markProxyAsInactive_pool [OF f six u len [symmetric] assms(2)]
  show ?thesis
  proof (cases "writable fs")
    case True
    with m have "markProxyAsInactive proxies i fs = Inr (?ps, ?fs, None)" by simp
    with p' show ?thesis by (intro exI [of _ ?ps] exI [of _ ?fs] exI [of _ None]) simp
  next
    case False
    with m have "markProxyAsInactive proxies i fs
        = Inr (?ps, fs, Some ''open proxies.csv: permission denied'')" by simp
    with p show ?thesis
      by (intro exI [of _ ?ps] exI [of _ fs] exI [of _ "Some ''open proxies.csv: permission denied''"])
         simp
  qed
qed

text \<open>
  Claim C7. After a load that succeeded, deactivating the proxy at an index
  of the pool rewrites the file at the record that this proxy was loaded from:
  its sixth field becomes \<open>false\<close>, its other fields, the other records and
  their order stay as they were, and a new load gives the same pool with that
  one proxy inactive. With the reader of \<^verbatim>\<open>encoding/csv\<close> a record shorter than
  the header makes the load fail, so no record is passed over in a pool that
  holds a proxy.
\<close>

theorem deactivation_is_position_stable:
  assumes "csv_wellformed fs" "writable fs" "loadProxies fs = Inr proxies" "i < length proxies"
  shows "\<exists>records. proxies_csv fs = Some records
           \<and> length records = Suc (length proxies)
           \<and> proxies = map proxy_of (tl records)
           \<and> markProxyAsInactive proxies i fs =
               Inr (proxies[i := (proxies ! i)\<lparr>Active := False\<rparr>],
                    fs\<lparr>proxies_csv := Some (records[Suc i := (records ! Suc i)[5 := ''false'']])\<rparr>,
                    None)
           \<and> loadProxies (fs\<lparr>proxies_csv := Some (records[Suc i := (records ! Suc i)[5 := ''false'']])\<rparr>)
               = Inr (proxies[i := (proxies ! i)\<lparr>Active := False\<rparr>])"
proof -
  from assms(4) have ne: "proxies \<noteq> []" by auto
  from assms(1,3) ne obtain header rows where f: "proxies_csv fs = Some (header # rows)"
    and six: "6 \<le> length header" and u: "\<forall>r \<in> set rows. length r = length header"
    and p: "proxies = map proxy_of rows"
    by (rule loadProxies_pool)
  from p have len: "length proxies = length rows" by simp
  let ?rows = "rows[i := (rows ! i)[5 := ''false'']]"
  have ri: "rows ! i \<in> set rows" using assms(4) len by simp
  have u': "\<forall>r \<in> set ?rows. length r = length header"
    using u assms(4) len by (intro update_uniform) simp_all
  have m: "markProxyAsInactive proxies i fs =
      Inr (proxies[i := (proxies ! i)\<lparr>Active := False\<rparr>],
           fs\<lparr>proxies_csv := Some (header # ?rows)\<rparr>, None)"
    using markProxyAsInactive_pool [OF f six u len assms(4)] assms(2) by simp
  have "map proxy_of ?rows = (map proxy_of rows)[i := (proxy_of (rows ! i))\<lparr>Active := False\<rparr>]"
    using ri u six by (simp add: map_update proxy_of_deactivated)
  also have "\<dots> = proxies[i := (proxies ! i)\<lparr>Active := False\<rparr>]"
    using p assms(4) by simp
  finally have l: "loadProxies (fs\<lparr>proxies_csv := Some (header # ?rows)\<rparr>)
      = Inr (proxies[i := (proxies ! i)\<lparr>Active := False\<rparr>])"
    using load_rows_map [OF six u'] by (simp add: loadProxies_def)
  show ?thesis
    by (rule exI [of _ "header # rows"]) (use f p m l in simp)
qed


theorem deactivation_is_position_stable_witness:
  "csv_wellformed two_proxies_files \<and> writable two_proxies_files
   \<and> loadProxies two_proxies_files = Inr (map proxy_of (tl two_proxies))
   \<and> map Active (map proxy_of (tl two_proxies)) = [False, True]
   \<and> (\<exists>ps fs. markProxyAsInactive (map proxy_of (tl two_proxies)) 1 two_proxies_files
                = Inr (ps, fs, None)
         \<and> map Active ps = [False, False]
         \<and> proxies_csv fs =
             Some [[''host'', ''port'', ''username'', ''password'', ''type'', ''active''],
                   [''10.0.0.1'', ''8080'', [], [], ''http'', ''false''],
                   [''10.0.0.2'', ''1080'', ''user'', ''secret'', ''socks5'', ''false'']]
         \<and> loadProxies fs = Inr ps)"
proof -
  let ?ps = "map proxy_of (tl two_proxies)"
  have wf: "csv_wellformed two_proxies_files"
    by (simp add: csv_wellformed_def two_proxies_files_def two_proxies_def)
  have wr: "writable two_proxies_files" by (simp add: two_proxies_files_def)
  have l: "loadProxies two_proxies_files = Inr ?ps"
    by (simp add: loadProxies_def two_proxies_files_def two_proxies_def fields_error_def
          fields_next_def)
  have a: "map Active ?ps = [False, True]"
    by (simp add: two_proxies_def proxy_of_def ParseBool_def)
  have i: "1 < length ?ps" by (simp add: two_proxies_def)
  from deactivation_is_position_stable [OF wf wr l i]
  obtain records where r: "proxies_csv two_proxies_files = Some records"
    and m: "markProxyAsInactive ?ps 1 two_proxies_files =
               Inr (?ps[1 := (?ps ! 1)\<lparr>Active := False\<rparr>],
                    two_proxies_files\<lparr>proxies_csv :=
                      Some (records[Suc 1 := (records ! Suc 1)[5 := ''false'']])\<rparr>,
                    None)"
    and l': "loadProxies (two_proxies_files\<lparr>proxies_csv :=
                      Some (records[Suc 1 := (records ! Suc 1)[5 := ''false'']])\<rparr>)
               = Inr (?ps[1 := (?ps ! 1)\<lparr>Active := False\<rparr>])"
    by blast
  from r have rec: "records = two_proxies" by (simp add: two_proxies_files_def)
  have "\<exists>ps fs. markProxyAsInactive ?ps 1 two_proxies_files = Inr (ps, fs, None)
         \<and> map Active ps = [False, False]
         \<and> proxies_csv fs =
             Some [[''host'', ''port'', ''username'', ''password'', ''type'', ''active''],
                   [''10.0.0.1'', ''8080'', [], [], ''http'', ''false''],
                   [''10.0.0.2'', ''1080'', ''user'', ''secret'', ''socks5'', ''false'']]
         \<and> loadProxies fs = Inr ps"
    apply (rule exI [of _ "?ps[1 := (?ps ! 1)\<lparr>Active := False\<rparr>]"])
    apply (rule exI [of _ "two_proxies_files\<lparr>proxies_csv :=
                      Some (records[Suc 1 := (records ! Suc 1)[5 := ''false'']])\<rparr>"])
    apply (intro conjI)
       apply (rule m)
      apply (simp add: two_proxies_def proxy_of_def ParseBool_def)
     apply (simp add: rec two_proxies_def)
    apply (rule l')
    done
  with wf wr l a show ?thesis by blast
qed

subsection \<open>Exhausting the pool\<close>

lemma proxy_loop_exhausted:
  assumes "rest = [] \<or> pool_file fs (length proxies)" "i + length rest = length proxies"
    "\<forall>p \<in> set rest. Active p \<longrightarrow> proxy_fails w domain p"
  shows "\<exists>fs'. proxy_loop w domain result proxies fs i rest = Inr (None, fs')"
  using assms
proof (induction rest arbitrary: proxies fs i)
  case Nil
  then show ?case by simp
next
  case (Cons proxy rest)
  from Cons.prems(1) have pf: "pool_file fs (length proxies)" by simp
  show ?case
  proof (cases "Active proxy")
    case False
    have "\<exists>fs'. proxy_loop w domain result proxies fs (Suc i) rest = Inr (None, fs')"
      using Cons.prems pf by (intro Cons.IH) simp_all
    with False show ?thesis by simp
  next
    case True
    with Cons.prems(3) have "proxy_fails w domain proxy" by simp
    then obtain s b h e where c: "checkDomain' w domain (Some proxy) = (s, b, h, Some e)"
      by (cases "checkDomain' w domain (Some proxy)") (auto simp: proxy_fails_def)
    from Cons.prems(2) have i: "i < length proxies" by simp
    from pool_file_mark [OF pf i] obtain ps' fs' err
      where m: "markProxyAsInactive proxies i fs = Inr (ps', fs', err)"
        and l: "length ps' = length proxies" and pf': "pool_file fs' (length ps')"
      by blast
    have "\<exists>fs''. proxy_loop w domain result ps' fs' (Suc i) rest = Inr (None, fs'')"
      using Cons.prems l pf' by (intro Cons.IH) simp_all
    with True c m show ?thesis by simp
  qed
qed

lemma php_proxy_loop_exhausted:
  assumes "\<forall>p \<in> set rest. p_active p \<longrightarrow> php_proxy_fails exec domain p"
  shows "\<exists>fl'. php_proxy_loop exec domain result proxies fl i rest = (None, fl')"
  using assms
proof (induction rest arbitrary: fl i)
  case Nil
  then show ?case by simp
next
  case (Cons proxy rest)
  show ?case
  proof (cases "p_active proxy")
    case False
    with Cons show ?thesis by simp
  next
    case True
    with Cons.prems have "php_proxy_fails exec domain proxy" by simp
    then obtain b h where c: "php_fetchUrl exec domain (Some proxy) = (None, b, h)"
      by (cases "php_fetchUrl exec domain (Some proxy)") (auto simp: php_proxy_fails_def)
    have "\<exists>fl'. php_proxy_loop exec domain result proxies
             (fst (php_markProxyAsInactive proxies i fl)) (Suc i) rest = (None, fl')"
      using Cons.prems by (intro Cons.IH) simp
    with True c show ?thesis by simp
  qed
qed


lemma main'_blocked:
  assumes "checkDomain' w (with_scheme d) None = (403, body, headers, None)"
  shows "main' w fs [prog, d] =
     (let result = record_redirect ((new_result (with_scheme d))\<lparr>StatusCode' := 403, Headers := headers\<rparr>)
                     headers 403
      in case loadProxies fs of
           Inl err \<Rightarrow> Inr (Some (result\<lparr>Error := ''Failed to load proxies: '' @ err\<rparr>), fs)
         | Inr proxies \<Rightarrow>
            (case proxy_loop w (with_scheme d) result proxies fs 0 proxies of
               Inl panic \<Rightarrow> Inl panic
             | Inr (Some result, fs) \<Rightarrow> Inr (Some result, fs)
             | Inr (None, fs) \<Rightarrow>
                 Inr (Some (result\<lparr>StatusCode' := 403,
                        Error := ''All proxies failed or returned 403''\<rparr>), fs)))"
proof -
  consider (a) "prefix ''http://'' d" | (b) "\<not> prefix ''http://'' d" "prefix ''https://'' d"
    | (c) "\<not> prefix ''http://'' d" "\<not> prefix ''https://'' d"
    by blast
  then show ?thesis
  proof cases
    case a
    with assms have "checkDomain' w d None = (403, body, headers, None)"
      by (simp add: with_scheme_def)
    with a show ?thesis
      by (simp add: main'_def Let_def with_scheme_def new_result_def
            cong: sum.case_cong option.case_cong)
  next
    case b
    with assms have "checkDomain' w d None = (403, body, headers, None)"
      by (simp add: with_scheme_def)
    with b show ?thesis
      by (simp add: main'_def Let_def with_scheme_def new_result_def
            cong: sum.case_cong option.case_cong)
  next
    case c
    with assms have "checkDomain' w (''https://'' @ d) None = (403, body, headers, None)"
      by (simp add: with_scheme_def)
    with c show ?thesis
      by (simp add: main'_def Let_def with_scheme_def new_result_def
            cong: sum.case_cong option.case_cong)
  qed
qed

lemma php_checkDomain_blocked:
  assumes "php_fetchUrl exec (php_with_scheme d) None = (Some 403, body, headers)"
  shows "php_checkDomain exec fl d =
     (let result = php_record_redirect
            \<lparr>r_domain = php_with_scheme d, r_status_code = Some 403, r_is_wordpress = False,
             r_wp_version = None, r_wp_theme = None, r_wp_plugins = [], r_headers = headers,
             r_error = None, r_proxy_used = None, r_redirect_location = None\<rparr> headers 403;
          proxies = php_loadProxies fl
      in if proxies = [] then (result\<lparr>r_error := Some ''No proxies available''\<rparr>, fl)
         else (case php_proxy_loop exec (php_with_scheme d) result proxies fl 0 proxies of
                 (Some result, fl) \<Rightarrow> (result, fl)
               | (None, fl) \<Rightarrow>
                   (result\<lparr>r_status_code := Some 403,
                           r_error := Some ''All proxies failed or returned 403''\<rparr>, fl)))"
proof -
  consider (a) "prefix ''http://'' (ToLower d)"
    | (b) "\<not> prefix ''http://'' (ToLower d)" "prefix ''https://'' (ToLower d)"
    | (c) "\<not> prefix ''http://'' (ToLower d)" "\<not> prefix ''https://'' (ToLower d)"
    by blast
  then show ?thesis
  proof cases
    case a
    with assms have "php_fetchUrl exec d None = (Some 403, body, headers)"
      by (simp add: php_with_scheme_def)
    with a show ?thesis
      by (simp add: php_checkDomain_def Let_def php_with_scheme_def cong: option.case_cong)
  next
    case b
    with assms have "php_fetchUrl exec d None = (Some 403, body, headers)"
      by (simp add: php_with_scheme_def)
    with b show ?thesis
      by (simp add: php_checkDomain_def Let_def php_with_scheme_def cong: option.case_cong)
  next
    case c
    with assms have "php_fetchUrl exec (''https://'' @ d) None = (Some 403, body, headers)"
      by (simp add: php_with_scheme_def)
    with c show ?thesis
      by (simp add: php_checkDomain_def Let_def php_with_scheme_def cong: option.case_cong)
  qed
qed

text \<open>
  Claim C6. When the direct request is answered with the status 403 and the
  request through every active proxy of the loaded pool fails, the result
  carries the status 403 and an explanatory error, and nothing of the
  classification: the detected flag is false, version, theme and add-ons are
  empty and no proxy is named. This holds for the prototype in Go, whose
  error is \<open>All proxies failed or returned 403\<close>, and for the PHP version, whose
  error is the same for a pool with proxies and \<open>No proxies available\<close> for an
  empty pool.
\<close>

theorem pool_exhausted_forces_403:
  "(csv_wellformed fs
      \<and> checkDomain' w (with_scheme d) None = (403, body, headers, None)
      \<and> loadProxies fs = Inr proxies
      \<and> (\<forall>p \<in> set proxies. Active p \<longrightarrow> proxy_fails w (with_scheme d) p)
    \<longrightarrow> (\<exists>result fs'. main' w fs [prog, d] = Inr (Some result, fs')
           \<and> StatusCode' result = 403
           \<and> Error result = ''All proxies failed or returned 403''
           \<and> \<not> IsWordPress' result \<and> WPVersion result = [] \<and> WPTheme result = []
           \<and> WPPlugins result = [] \<and> ProxyUsed result = []))
   \<and> (php_fetchUrl exec (php_with_scheme d) None = (Some 403, body, hdrs)
      \<and> (\<forall>p \<in> set (php_loadProxies fl). p_active p \<longrightarrow> php_proxy_fails exec (php_with_scheme d) p)
    \<longrightarrow> r_status_code (fst (php_checkDomain exec fl d)) = Some 403
        \<and> r_error (fst (php_checkDomain exec fl d)) =
            Some (if php_loadProxies fl = [] then ''No proxies available''
                  else ''All proxies failed or returned 403'')
        \<and> \<not> r_is_wordpress (fst (php_checkDomain exec fl d))
        \<and> r_wp_version (fst (php_checkDomain exec fl d)) = None
        \<and> r_wp_theme (fst (php_checkDomain exec fl d)) = None
        \<and> r_wp_plugins (fst (php_checkDomain exec fl d)) = []
        \<and> r_proxy_used (fst (php_checkDomain exec fl d)) = None)"
proof (rule conjI; rule impI)
  assume a: "csv_wellformed fs
      \<and> checkDomain' w (with_scheme d) None = (403, body, headers, None)
      \<and> loadProxies fs = Inr proxies
      \<and> (\<forall>p \<in> set proxies. Active p \<longrightarrow> proxy_fails w (with_scheme d) p)"
  let ?r = "record_redirect ((new_result (with_scheme d))\<lparr>StatusCode' := 403, Headers := headers\<rparr>)
                     headers 403"
  have pf: "proxies = [] \<or> pool_file fs (length proxies)"
    using a pool_file_loadProxies [of fs proxies] by blast
  from proxy_loop_exhausted [OF pf, of 0 w "with_scheme d" ?r] a
  obtain fs' where l: "proxy_loop w (with_scheme d) ?r proxies fs 0 proxies = Inr (None, fs')"
    by auto
  let ?result = "?r\<lparr>StatusCode' := 403, Error := ''All proxies failed or returned 403''\<rparr>"
  from a l have m: "main' w fs [prog, d] = Inr (Some ?result, fs')"
    by (simp add: main'_blocked Let_def)
  have f: "StatusCode' ?result = 403" "Error ?result = ''All proxies failed or returned 403''"
    "\<not> IsWordPress' ?result" "WPVersion ?result = []" "WPTheme ?result = []"
    "WPPlugins ?result = []" "ProxyUsed ?result = []"
    by (simp_all add: record_redirect_def new_result_def split: option.splits)
  show "\<exists>result fs'. main' w fs [prog, d] = Inr (Some result, fs')
           \<and> StatusCode' result = 403
           \<and> Error result = ''All proxies failed or returned 403''
           \<and> \<not> IsWordPress' result \<and> WPVersion result = [] \<and> WPTheme result = []
           \<and> WPPlugins result = [] \<and> ProxyUsed result = []"
    by (rule exI [of _ ?result], rule exI [of _ fs']) (use m f in blast)
next
  assume a: "php_fetchUrl exec (php_with_scheme d) None = (Some 403, body, hdrs)
      \<and> (\<forall>p \<in> set (php_loadProxies fl). p_active p \<longrightarrow> php_proxy_fails exec (php_with_scheme d) p)"
  let ?r = "php_record_redirect
            \<lparr>r_domain = php_with_scheme d, r_status_code = Some 403, r_is_wordpress = False,
             r_wp_version = None, r_wp_theme = None, r_wp_plugins = [], r_headers = hdrs,
             r_error = None, r_proxy_used = None, r_redirect_location = None\<rparr> hdrs 403"
  from a php_proxy_loop_exhausted [of "php_loadProxies fl" exec "php_with_scheme d" ?r "php_loadProxies fl" fl 0]
  obtain fl' where l: "php_proxy_loop exec (php_with_scheme d) ?r (php_loadProxies fl) fl 0
       (php_loadProxies fl) = (None, fl')"
    by blast
  have c: "fst (php_checkDomain exec fl d) =
      (if php_loadProxies fl = [] then ?r\<lparr>r_error := Some ''No proxies available''\<rparr>
       else ?r\<lparr>r_status_code := Some 403, r_error := Some ''All proxies failed or returned 403''\<rparr>)"
    using a l by (simp add: php_checkDomain_blocked Let_def)
  show "r_status_code (fst (php_checkDomain exec fl d)) = Some 403
        \<and> r_error (fst (php_checkDomain exec fl d)) =
            Some (if php_loadProxies fl = [] then ''No proxies available''
                  else ''All proxies failed or returned 403'')
        \<and> \<not> r_is_wordpress (fst (php_checkDomain exec fl d))
        \<and> r_wp_version (fst (php_checkDomain exec fl d)) = None
        \<and> r_wp_theme (fst (php_checkDomain exec fl d)) = None
        \<and> r_wp_plugins (fst (php_checkDomain exec fl d)) = []
        \<and> r_proxy_used (fst (php_checkDomain exec fl d)) = None"
    unfolding c by (simp add: php_record_redirect_def)
qed


theorem pool_exhausted_forces_403_witness:
  "csv_wellformed two_proxies_files
   \<and> checkDomain' (world'_of blocked_net) (with_scheme ''example.com'') None = (403, ''Forbidden'', [], None)
   \<and> loadProxies two_proxies_files = Inr (map proxy_of (tl two_proxies))
   \<and> proxy_fails (world'_of blocked_net) (with_scheme ''example.com'') (proxy_of (two_proxies ! 2))
   \<and> StatusCode' (the (fst (projr (main' (world'_of blocked_net) two_proxies_files
         [''checker'', ''example.com''])))) = 403
   \<and> Error (the (fst (projr (main' (world'_of blocked_net) two_proxies_files
         [''checker'', ''example.com''])))) = ''All proxies failed or returned 403''
   \<and> \<not> IsWordPress' (the (fst (projr (main' (world'_of blocked_net) two_proxies_files
         [''checker'', ''example.com'']))))
   \<and> php_fetchUrl blocked_exec (php_with_scheme ''example.com'') None = (Some 403, ''Forbidden'', [])
   \<and> php_proxy_fails blocked_exec (php_with_scheme ''example.com'') (php_proxy_of (two_proxies ! 2))
   \<and> r_status_code (fst (php_checkDomain blocked_exec (Some two_proxies) ''example.com'')) = Some 403
   \<and> r_error (fst (php_checkDomain blocked_exec (Some two_proxies) ''example.com''))
       = Some ''All proxies failed or returned 403''
   \<and> \<not> r_is_wordpress (fst (php_checkDomain blocked_exec (Some two_proxies) ''example.com''))"
proof -
  let ?w = "world'_of blocked_net"
  let ?d = "''example.com''"
  let ?m = "main' ?w two_proxies_files [''checker'', ?d]"
  let ?p = "php_checkDomain blocked_exec (Some two_proxies) ?d"
  have wf: "csv_wellformed two_proxies_files"
    by (simp add: csv_wellformed_def two_proxies_files_def two_proxies_def)
  have c: "checkDomain' ?w (with_scheme ?d) None = (403, ''Forbidden'', [], None)"
    by code_simp
  have l: "loadProxies two_proxies_files = Inr (map proxy_of (tl two_proxies))"
    by (simp add: loadProxies_def two_proxies_files_def two_proxies_def fields_error_def
          fields_next_def)
  have a: "Active (proxy_of (two_proxies ! 1)) = False"
    by (simp add: two_proxies_def proxy_of_def ParseBool_def)
  have f: "proxy_fails ?w (with_scheme ?d) (proxy_of (two_proxies ! 2))"
    by code_simp
  have ps: "map proxy_of (tl two_proxies) = [proxy_of (two_proxies ! 1), proxy_of (two_proxies ! 2)]"
    by (simp add: two_proxies_def)
  have all: "\<forall>p \<in> set (map proxy_of (tl two_proxies)). Active p \<longrightarrow> proxy_fails ?w (with_scheme ?d) p"
    unfolding ps using a f by simp
  have pc: "php_fetchUrl blocked_exec (php_with_scheme ?d) None = (Some 403, ''Forbidden'', [])"
    by code_simp
  have pl: "php_loadProxies (Some two_proxies)
      = [php_proxy_of (two_proxies ! 1), php_proxy_of (two_proxies ! 2)]"
    by (simp add: php_loadProxies_def two_proxies_def)
  have pa: "p_active (php_proxy_of (two_proxies ! 1)) = False"
    by code_simp
  have pf: "php_proxy_fails blocked_exec (php_with_scheme ?d) (php_proxy_of (two_proxies ! 2))"
    by code_simp
  have pall: "\<forall>p \<in> set (php_loadProxies (Some two_proxies)).
      p_active p \<longrightarrow> php_proxy_fails blocked_exec (php_with_scheme ?d) p"
    unfolding pl using pa pf by simp
  note t = pool_exhausted_forces_403 [where fs = two_proxies_files and w = ?w and d = ?d
      and body = "''Forbidden''" and headers = "[]" and proxies = "map proxy_of (tl two_proxies)"
      and prog = "''checker''" and exec = blocked_exec and hdrs = "[]" and fl = "Some two_proxies"]
  from t wf c l all obtain result fs' where r: "?m = Inr (Some result, fs')"
    "StatusCode' result = 403" "Error result = ''All proxies failed or returned 403''"
    "\<not> IsWordPress' result"
    by blast
  from r(1) have e: "the (fst (projr ?m)) = result" by simp
  from t pc pall have q: "r_status_code (fst ?p) = Some 403"
    "r_error (fst ?p) = Some (if php_loadProxies (Some two_proxies) = [] then ''No proxies available''
                  else ''All proxies failed or returned 403'')"
    "\<not> r_is_wordpress (fst ?p)"
    by blast+
  from q(2) pl have q2: "r_error (fst ?p) = Some ''All proxies failed or returned 403''" by simp
  from wf c l f r(2-) pc pf q(1,3) q2 show ?thesis unfolding e by simp
qed


end
